theory Spec2Isabelle
  imports Main
begin

section \<open>JavaScript values used by the services\<close>

text \<open>
  A value that may be \<open>null\<close> or \<open>undefined\<close> is an \<open>option\<close>; a string is truthy
  when it is present and not empty.
\<close>

definition truthy :: "string option \<Rightarrow> bool" where
  "truthy v = (case v of None \<Rightarrow> False | Some s \<Rightarrow> s \<noteq> [])"

text \<open>\<open>a ?? b\<close>: the left operand unless it is \<open>null\<close> or \<open>undefined\<close>.\<close>

definition nullish_or :: "'a option \<Rightarrow> 'a option \<Rightarrow> 'a option" where
  "nullish_or a b = (case a of None \<Rightarrow> b | Some x \<Rightarrow> Some x)"

text \<open>\<open>a || b\<close> on optional strings: the left operand when it is truthy.\<close>

definition js_or :: "string option \<Rightarrow> string option \<Rightarrow> string option" where
  "js_or a b = (if truthy a then a else b)"

text \<open>Decimal rendering of numbers inside template strings.\<close>

definition digit_char :: "nat \<Rightarrow> char" where
  "digit_char d = char_of (48 + d)"

fun show_nat :: "nat \<Rightarrow> string" where
  "show_nat n = (if n < 10 then [digit_char n] else show_nat (n div 10) @ [digit_char (n mod 10)])"

declare show_nat.simps [simp del]

definition show_int :: "int \<Rightarrow> string" where
  "show_int i = (if i < 0 then CHR ''-'' # show_nat (nat (- i)) else show_nat (nat i))"

text \<open>\<open>String.prototype.toLowerCase\<close> on the ASCII letters, \<open>replace(/_/g, '/')\<close>.\<close>

definition lower_char :: "char \<Rightarrow> char" where
  "lower_char c = (let n = (of_char c :: nat) in if 65 \<le> n \<and> n \<le> 90 then char_of (n + 32) else c)"

definition toLowerCase :: "string \<Rightarrow> string" where
  "toLowerCase s = map lower_char s"

definition underscores_to_slashes :: "string \<Rightarrow> string" where
  "underscores_to_slashes s = map (\<lambda>c. if c = CHR ''_'' then CHR ''/'' else c) s"

section \<open>Event intake: the orders/create webhook\<close>

record address =
  addr_phone :: "string option"

record customer =
  cust_phone :: "string option"

record payload_line_item =
  pli_id :: int
  pli_price :: "string option"
  pli_quantity :: int
  pli_variant_id :: "int option"

text \<open>
  The fields of the payload that the handler and the worker read. \<open>p_id\<close> is
  \<open>Some n\<close> exactly when \<open>typeof payload.id === 'number'\<close>.
\<close>

record payload_order =
  p_id :: "int option"
  p_phone :: "string option"
  p_shipping_address :: "address option"
  p_billing_address :: "address option"
  p_customer :: "customer option"
  p_line_items :: "payload_line_item list option"

record webhook_context =
  ctx_shop :: string
  ctx_topic :: string
  ctx_payload :: "payload_order option"

record webhook_event =
  we_id :: nat
  we_shopId :: string
  we_topic :: string
  we_payload :: "payload_order option"
  we_processed :: bool
  we_eventId :: string
  we_processedAt :: "int option"
  we_lastError :: "string option"
  we_errorCount :: nat

record queue_job =
  job_id :: string
  job_name :: string
  job_webhookEventId :: nat
  job_timestamp :: int

record intake_state =
  events :: "webhook_event list"
  jobs :: "queue_job list"

record response =
  resp_body :: "string option"
  resp_status :: nat

datatype db_error = UniqueConstraintViolation | RecordNotFound

text \<open>
  \<open>prisma.webhookEvent.create\<close>. The Prisma schema is not part of the sources, so
  whether \<open>eventId\<close> carries a unique constraint is the parameter \<open>uniq\<close>: with it, an
  insert of an \<open>eventId\<close> that is already stored throws. The row id is generated by the
  store; rows are never deleted, so the number of rows is a fresh id. The error count of a
  new row is taken to start at 0.
\<close>

definition webhookEvent_create ::
  "bool \<Rightarrow> string \<Rightarrow> string \<Rightarrow> payload_order \<Rightarrow> string \<Rightarrow> intake_state
     \<Rightarrow> db_error + (webhook_event \<times> intake_state)" where
  "webhookEvent_create uniq shop topic payload eventId st =
     (if uniq \<and> eventId \<in> set (map we_eventId (events st)) then Inl UniqueConstraintViolation
      else let ev = \<lparr> we_id = length (events st), we_shopId = shop, we_topic = topic,
                       we_payload = Some payload, we_processed = False, we_eventId = eventId,
                       we_processedAt = None, we_lastError = None, we_errorCount = 0 \<rparr>
           in Inr (ev, st\<lparr> events := events st @ [ev] \<rparr>))"

text \<open>\<open>prisma.webhookEvent.update\<close> by id; it throws when no row has the id.\<close>

definition webhookEvent_update ::
  "nat \<Rightarrow> (webhook_event \<Rightarrow> webhook_event) \<Rightarrow> intake_state \<Rightarrow> db_error + intake_state" where
  "webhookEvent_update i f st =
     (if i \<in> set (map we_id (events st))
      then Inr (st\<lparr> events := map (\<lambda>e. if we_id e = i then f e else e) (events st) \<rparr>)
      else Inl RecordNotFound)"

text \<open>
  Modelled from the spec: \<open>orderProcessingQueue.add\<close> (the queue module is not part of
  the sources). Enqueue is idempotent by job key: adding a job whose id is already queued
  creates no second job and does not raise.
\<close>

definition queue_add :: "queue_job \<Rightarrow> intake_state \<Rightarrow> intake_state" where
  "queue_add j st =
     (if job_id j \<in> set (map job_id (jobs st)) then st else st\<lparr> jobs := jobs st @ [j] \<rparr>)"

text \<open>
  The phone chain of the handler:
  \<open>phone ?? shipping_address?.phone ?? billing_address?.phone ?? customer?.phone\<close>.
\<close>

definition customerPhone :: "payload_order \<Rightarrow> string option" where
  "customerPhone p =
     nullish_or (p_phone p)
       (nullish_or (case p_shipping_address p of None \<Rightarrow> None | Some a \<Rightarrow> addr_phone a)
          (nullish_or (case p_billing_address p of None \<Rightarrow> None | Some a \<Rightarrow> addr_phone a)
             (case p_customer p of None \<Rightarrow> None | Some c \<Rightarrow> cust_phone c)))"

definition internal_error_response :: response where
  "internal_error_response =
     \<lparr> resp_body = Some ''Error processing webhook internally, acknowledged.'', resp_status = 200 \<rparr>"

text \<open>
  The webhook handler \<open>action\<close>. \<open>now\<close> is \<open>Date.now()\<close>, \<open>hdr\<close> the
  \<open>X-Shopify-Webhook-Id\<close> header, \<open>auth\<close> the outcome of \<open>authenticate.webhook\<close>
  (\<open>None\<close> when it throws). Every exception ends in the handler's catch-all, which
  answers 200; what was written before the exception stays written.
\<close>

definition action ::
  "bool \<Rightarrow> int \<Rightarrow> string option \<Rightarrow> webhook_context option \<Rightarrow> intake_state
     \<Rightarrow> response \<times> intake_state" where
  "action uniq now hdr auth st =
     (case auth of
        None \<Rightarrow> (internal_error_response, st)
      | Some ctx \<Rightarrow>
          (case (if ctx_shop ctx = [] \<or> ctx_topic ctx = [] then None else ctx_payload ctx) of
             None \<Rightarrow> (\<lparr> resp_body = Some ''Invalid payload'', resp_status = 200 \<rparr>, st)
           | Some payload \<Rightarrow>
                 (case p_id payload of
                    None \<Rightarrow>
                      (\<lparr> resp_body = Some ''Invalid payload - Missing Order ID'',
                         resp_status = 200 \<rparr>, st)
                  | Some shopifyOrderIdNum \<Rightarrow>
                      let normalizedTopic = underscores_to_slashes (toLowerCase (ctx_topic ctx)) in
                      if normalizedTopic \<noteq> ''orders/create''
                      then (\<lparr> resp_body = None, resp_status = 200 \<rparr>, st)
                      else
                        let eventId =
                              (case hdr of
                                 Some h \<Rightarrow> h
                               | None \<Rightarrow> ''generated_'' @ show_int now @ ''_''
                                            @ show_int shopifyOrderIdNum)
                        in
                        (case webhookEvent_create uniq (ctx_shop ctx) normalizedTopic payload
                                eventId st of
                           Inl e \<Rightarrow> (internal_error_response, st)
                         | Inr (webhookEvent, st1) \<Rightarrow>
                             if \<not> truthy (customerPhone payload)
                             then
                               (case webhookEvent_update (we_id webhookEvent)
                                       (\<lambda>e. e\<lparr> we_processed := True,
                                                we_processedAt := Some now,
                                                we_lastError := Some
                                                  ''Skipped: No customer phone number found in payload.'' \<rparr>)
                                       st1 of
                                  Inl e \<Rightarrow> (internal_error_response, st1)
                                | Inr st2 \<Rightarrow>
                                    (\<lparr> resp_body = Some ''Acknowledged, no phone number.'',
                                       resp_status = 200 \<rparr>, st2))
                             else
                               let st2 = queue_add
                                     \<lparr> job_id = ''order-'' @ ctx_shop ctx @ ''-''
                                                 @ show_int shopifyOrderIdNum,
                                       job_name = ''order-create-'' @ show_int shopifyOrderIdNum,
                                       job_webhookEventId = we_id webhookEvent,
                                       job_timestamp = now \<rparr> st1
                               in
                               (case webhookEvent_update (we_id webhookEvent) (\<lambda>e. e) st2 of
                                  Inl e \<Rightarrow> (internal_error_response, st2)
                                | Inr st3 \<Rightarrow>
                                    (\<lparr> resp_body = None, resp_status = 200 \<rparr>, st3))))))"

text \<open>
  The handler reaches the insert exactly when the context passes its checks: shop, topic
  and payload present, a numeric order id, and a topic that normalises to
  \<open>orders/create\<close>.
\<close>

definition intake_accepts :: "webhook_context option \<Rightarrow> bool" where
  "intake_accepts auth =
     (case auth of None \<Rightarrow> False
      | Some ctx \<Rightarrow> ctx_shop ctx \<noteq> [] \<and> ctx_topic ctx \<noteq> [] \<and>
          (case ctx_payload ctx of None \<Rightarrow> False | Some p \<Rightarrow> p_id p \<noteq> None) \<and>
          underscores_to_slashes (toLowerCase (ctx_topic ctx)) = ''orders/create'')"

definition eventIds :: "intake_state \<Rightarrow> string list" where
  "eventIds st = map we_eventId (events st)"

text \<open>Concrete inputs for the intake examples.\<close>

definition ex_payload :: payload_order where
  "ex_payload = \<lparr> p_id = Some 1001, p_phone = Some ''+15550100'', p_shipping_address = None,
                   p_billing_address = None, p_customer = None, p_line_items = None \<rparr>"

definition ex_ctx :: webhook_context where
  "ex_ctx = \<lparr> ctx_shop = ''s.myshopify.com'', ctx_topic = ''ORDERS_CREATE'',
              ctx_payload = Some ex_payload \<rparr>"

definition empty_phone_payload :: payload_order where
  "empty_phone_payload =
     \<lparr> p_id = Some 1002, p_phone = Some [],
       p_shipping_address = Some \<lparr> addr_phone = Some ''+15550100'' \<rparr>,
       p_billing_address = None, p_customer = None, p_line_items = None \<rparr>"

definition empty_phone_ctx :: webhook_context where
  "empty_phone_ctx = \<lparr> ctx_shop = ''s.myshopify.com'', ctx_topic = ''orders/create'',
                       ctx_payload = Some empty_phone_payload \<rparr>"

definition empty_intake :: intake_state where
  "empty_intake = \<lparr> events = [], jobs = [] \<rparr>"

section \<open>The digital-identity store\<close>

datatype udi_status = CREATED | MINT_PENDING | MINTED | MINT_FAILED

datatype order_status =
    PROCESSING | PENDING_WALLET | WALLET_PROVISIONED | FAILED_WALLET_PROVISIONING
  | FAILED_NO_PHONE_FOR_WALLET | COMPLETED | PARTIALLY_COMPLETED | FAILED_UDI_CREATION
  | FAILED_UDI_CREATION_ERROR | FAILED_PREREQUISITES_FOR_UDI

record core_product_variant =
  cpv_id :: string
  cpv_shopifyVariantGid :: string
  cpv_myshopify_domain :: string
  cpv_brand_3fa_id :: "string option"
  cpv_defaultSmartContractAddress :: "string option"

record unique_digital_id =
  udi_id :: nat
  udi_coreProductVariantId :: string
  udi_myshopify_domain :: string
  udi_brand_3fa_id :: "string option"
  udi_shopifyOrderId :: string
  udi_shopifyLineItemId :: string
  udi_owner3faId :: string
  udi_orders3faId :: string
  udi_privyWalletAddress :: "string option"
  udi_privyDid :: "string option"
  udi_status :: udi_status
  udi_contractAddress :: "string option"
  udi_blockchain :: "string option"
  udi_transactionHash :: "string option"
  udi_mintedAt :: "int option"

record orders3fa =
  o3_id :: string
  o3_user3faId :: string
  o3_shopifyOrderId :: string
  o3_status :: order_status
  o3_totalItems :: int
  o3_smsNotificationSentAt :: "int option"

text \<open>
  What the services do to the outside world, in the order they do it: a status written to
  a digital identity, a read of the minting configuration, the lazy import of the minting
  module, and a contract call (method, contract address, recipient, metadata URL).
\<close>

datatype effect =
    StatusWrite nat udi_status
  | EnvRead
  | ModuleImport
  | ChainCall string string string string

record sys =
  variants :: "core_product_variant list"
  digitalIds :: "unique_digital_id list"
  orders :: "orders3fa list"
  trace :: "effect list"

record env =
  BASE_MINTER_PRIVATE_KEY :: "string option"
  THIRDWEB_CLIENT_ID :: "string option"
  APP_BASE_URL :: "string option"
  DEFAULT_CONTRACT_ADDRESS :: "string option"
  BASE_CHAIN_ID :: "string option"

text \<open>
  Everything outside the store: the process environment; the construction of the thirdweb
  client, the minter account and the contract handle (\<open>createThirdwebClient\<close>,
  \<open>privateKeyToAccount\<close>, \<open>getChain\<close>, \<open>getContract\<close>) for a client id,
  private key and contract address, which gives the message of the error one of them
  throws, if any; the chain (a contract call with a method signature, contract address,
  recipient and metadata URL either throws with a message or returns the transaction hash
  of its receipt); whether the lazy import of the minting module succeeds; and the clock.
\<close>

record world =
  w_env :: env
  w_getContract :: "string \<Rightarrow> string \<Rightarrow> string \<Rightarrow> string option"
  w_chain :: "string \<Rightarrow> string \<Rightarrow> string \<Rightarrow> string \<Rightarrow> string + string"
  w_mintModuleLoads :: bool
  w_now :: int

definition log_effect :: "effect \<Rightarrow> sys \<Rightarrow> sys" where
  "log_effect e st = st\<lparr> trace := trace st @ [e] \<rparr>"

text \<open>
  Modelled from the spec: the unique constraint on \<open>shopifyLineItemId\<close> that
  \<open>prisma.uniqueDigitalId.create\<close> runs against (the Prisma schema is not part of the
  sources). The data model allows at most one digital identity per line-item id and unit
  index; in the sources, \<open>createDigitalIdForOrderItem\<close> looks rows up with
  \<open>findUnique\<close> on this field, and the key of a unit gets its index appended "to make
  the shopifyLineItemId unique". An insert of a stored key throws. The row id is generated
  by the store; rows are never deleted, so the number of rows is a fresh id.
\<close>

definition uniqueDigitalId_create ::
  "unique_digital_id \<Rightarrow> sys \<Rightarrow> db_error + (unique_digital_id \<times> sys)" where
  "uniqueDigitalId_create d st =
     (if udi_shopifyLineItemId d \<in> set (map udi_shopifyLineItemId (digitalIds st))
      then Inl UniqueConstraintViolation
      else let r = d\<lparr> udi_id := length (digitalIds st) \<rparr>
           in Inr (r, st\<lparr> digitalIds := digitalIds st @ [r] \<rparr>))"

text \<open>
  \<open>prisma.uniqueDigitalId.update\<close> by id, with the new status \<open>s\<close> and the other
  written fields as \<open>f\<close>; it throws when no row has the id.
\<close>

definition uniqueDigitalId_update ::
  "nat \<Rightarrow> udi_status \<Rightarrow> (unique_digital_id \<Rightarrow> unique_digital_id) \<Rightarrow> sys \<Rightarrow> db_error + sys" where
  "uniqueDigitalId_update i s f st =
     (if i \<in> set (map udi_id (digitalIds st))
      then Inr (st\<lparr> digitalIds :=
                       map (\<lambda>d. if udi_id d = i then (f d)\<lparr> udi_status := s \<rparr> else d) (digitalIds st),
                     trace := trace st @ [StatusWrite i s] \<rparr>)
      else Inl RecordNotFound)"

definition uniqueDigitalId_findUnique :: "nat \<Rightarrow> sys \<Rightarrow> unique_digital_id option" where
  "uniqueDigitalId_findUnique i st = find (\<lambda>d. udi_id d = i) (digitalIds st)"

text \<open>\<open>prisma.orders3fa.update\<close> of the status, by id.\<close>

definition orders3fa_update :: "string \<Rightarrow> order_status \<Rightarrow> sys \<Rightarrow> db_error + sys" where
  "orders3fa_update i s st =
     (if i \<in> set (map o3_id (orders st))
      then Inr (st\<lparr> orders := map (\<lambda>r. if o3_id r = i then r\<lparr> o3_status := s \<rparr> else r) (orders st) \<rparr>)
      else Inl RecordNotFound)"

section \<open>The minting service\<close>

text \<open>
  Strings are sequences of bytes, UTF-8 where they are not ASCII.
  \<open>String.prototype.trim\<close> strips the white space and line terminators of
  ECMAScript from both ends: U+0009 to U+000D and U+0020 (one byte), U+00A0 (two bytes),
  U+1680, U+2000 to U+200A, U+2028, U+2029, U+202F, U+205F, U+3000 and U+FEFF (three
  bytes).
\<close>

definition white1 :: "char \<Rightarrow> bool" where
  "white1 a = ((of_char a :: nat) \<in> {9, 10, 11, 12, 13, 32})"

definition white2 :: "char \<Rightarrow> char \<Rightarrow> bool" where
  "white2 a b = ((of_char a :: nat) = 194 \<and> (of_char b :: nat) = 160)"

definition white3 :: "char \<Rightarrow> char \<Rightarrow> char \<Rightarrow> bool" where
  "white3 a b c =
     (let x = (of_char a :: nat); y = (of_char b :: nat); z = (of_char c :: nat) in
        (x = 225 \<and> y = 154 \<and> z = 128)
      \<or> (x = 226 \<and> y = 128 \<and> ((128 \<le> z \<and> z \<le> 138) \<or> z = 168 \<or> z = 169 \<or> z = 175))
      \<or> (x = 226 \<and> y = 129 \<and> z = 159)
      \<or> (x = 227 \<and> y = 128 \<and> z = 128)
      \<or> (x = 239 \<and> y = 187 \<and> z = 191))"

fun trimStart :: "string \<Rightarrow> string" where
  "trimStart (a # b # c # rest) =
     (if white1 a then trimStart (b # c # rest)
      else if white2 a b then trimStart (c # rest)
      else if white3 a b c then trimStart rest
      else a # b # c # rest)"
| "trimStart [a, b] = (if white1 a then trimStart [b] else if white2 a b then [] else [a, b])"
| "trimStart [a] = (if white1 a then [] else [a])"
| "trimStart [] = []"

text \<open>The same from the end, on the reversed string.\<close>

fun trimEndRev :: "string \<Rightarrow> string" where
  "trimEndRev (c # b # a # rest) =
     (if white1 c then trimEndRev (b # a # rest)
      else if white2 b c then trimEndRev (a # rest)
      else if white3 a b c then trimEndRev rest
      else c # b # a # rest)"
| "trimEndRev [b, a] = (if white1 b then trimEndRev [a] else if white2 a b then [] else [b, a])"
| "trimEndRev [a] = (if white1 a then [] else [a])"
| "trimEndRev [] = []"

definition trim :: "string \<Rightarrow> string" where
  "trim s = rev (trimEndRev (rev (trimStart s)))"

text \<open>
  \<open>String.prototype.length\<close> counts UTF-16 code units: one for every character, two
  for a character outside the basic plane (a four-byte sequence).
\<close>

definition js_length :: "string \<Rightarrow> nat" where
  "js_length s =
     length (filter (\<lambda>c. \<not> (128 \<le> (of_char c :: nat) \<and> (of_char c :: nat) < 192)) s)
     + length (filter (\<lambda>c. 240 \<le> (of_char c :: nat)) s)"

definition is_hex :: "char \<Rightarrow> bool" where
  "is_hex c = (let n = (of_char c :: nat) in
                 (48 \<le> n \<and> n \<le> 57) \<or> (97 \<le> n \<and> n \<le> 102) \<or> (65 \<le> n \<and> n \<le> 70))"

definition getBlockchainName :: "env \<Rightarrow> string" where
  "getBlockchainName e =
     (if map_option trim (BASE_CHAIN_ID e) = Some ''8453'' then ''base'' else ''base-sepolia'')"

text \<open>\<open>ensureEnv\<close>: the client id, the normalised private key and the app base URL, or
  the message of the error it throws.\<close>

definition ensureEnv :: "env \<Rightarrow> string + (string \<times> string \<times> string)" where
  "ensureEnv e =
     (case (if truthy (THIRDWEB_CLIENT_ID e) then THIRDWEB_CLIENT_ID e else None) of
        None \<Rightarrow> Inl ''THIRDWEB_CLIENT_ID is required for minting''
      | Some clientId \<Rightarrow>
     (case (if truthy (BASE_MINTER_PRIVATE_KEY e) then BASE_MINTER_PRIVATE_KEY e else None) of
        None \<Rightarrow> Inl ''BASE_MINTER_PRIVATE_KEY is required for minting''
      | Some privateKey \<Rightarrow>
     (case (if truthy (APP_BASE_URL e) then APP_BASE_URL e else None) of
        None \<Rightarrow> Inl ''APP_BASE_URL is required to build token metadata URLs''
      | Some appBaseUrl \<Rightarrow>
          let pk0 = trim privateKey;
              pk = (if take 2 pk0 = ''0x'' then drop 2 pk0 else pk0)
          in if \<not> (length pk = 64 \<and> list_all is_hex pk)
             then Inl (''Invalid private key format. Expected a 64-character hex string, ''
                       @ ''but got a key with length '' @ show_nat (js_length pk)
                       @ '' after trimming.'')
             else Inr (clientId, ''0x'' @ pk, appBaseUrl))))"

definition mintMethods :: "string list" where
  "mintMethods =
     [''function mintTo(address to, string uri) returns (uint256 tokenId)'',
      ''function safeMint(address to, string uri)'']"

text \<open>
  The loop over the candidate methods, with its two variables \<open>receipt\<close> and
  \<open>lastError\<close>: a call that returns sets the receipt, clears the error and leaves the
  loop; a call that throws records the error and goes on to the next method.
\<close>

fun tryMintMethods ::
  "world \<Rightarrow> string \<Rightarrow> string \<Rightarrow> string \<Rightarrow> string list
     \<Rightarrow> string option \<times> string option \<times> sys \<Rightarrow> string option \<times> string option \<times> sys" where
  "tryMintMethods w contract recipient url [] acc = acc"
| "tryMintMethods w contract recipient url (method # rest) (receipt, lastError, st) =
     (let st1 = log_effect (ChainCall method contract recipient url) st in
      case w_chain w method contract recipient url of
        Inr tx \<Rightarrow> (Some tx, None, st1)
      | Inl err \<Rightarrow> tryMintMethods w contract recipient url rest (receipt, Some err, st1))"

datatype mint_result = MintSuccess string | MintFailure string

text \<open>The catch block of \<open>mintDigitalIdOnBase\<close>: mark the record \<open>MINT_FAILED\<close>
  (an error of that update is only logged) and return the failure.\<close>

definition mint_catch :: "nat \<Rightarrow> string \<Rightarrow> sys \<Rightarrow> mint_result \<times> sys" where
  "mint_catch i msg st =
     (case uniqueDigitalId_update i MINT_FAILED (\<lambda>d. d) st of
        Inl e \<Rightarrow> (MintFailure msg, st)
      | Inr st' \<Rightarrow> (MintFailure msg, st'))"

definition metadataUrl :: "string \<Rightarrow> nat \<Rightarrow> string" where
  "metadataUrl appBaseUrl i =
     (if appBaseUrl \<noteq> [] \<and> last appBaseUrl = CHR ''/'' then butlast appBaseUrl else appBaseUrl)
     @ ''/api/token-metadata/'' @ show_nat i"

definition resolveContractAddress :: "env \<Rightarrow> sys \<Rightarrow> unique_digital_id \<Rightarrow> string option" where
  "resolveContractAddress e st d =
     js_or (udi_contractAddress d)
       (js_or (case find (\<lambda>v. cpv_id v = udi_coreProductVariantId d) (variants st) of
                 None \<Rightarrow> None
               | Some v \<Rightarrow> cpv_defaultSmartContractAddress v)
          (js_or (DEFAULT_CONTRACT_ADDRESS e) None))"

text \<open>The fields written, next to the status, when a mint succeeded.\<close>

definition mintedData :: "world \<Rightarrow> string \<Rightarrow> string \<Rightarrow> unique_digital_id \<Rightarrow> unique_digital_id" where
  "mintedData w contractAddress transactionHash d =
     d\<lparr> udi_blockchain := Some (getBlockchainName (w_env w)),
        udi_transactionHash := Some transactionHash,
        udi_contractAddress := Some contractAddress,
        udi_mintedAt := Some (w_now w) \<rparr>"

definition mintDigitalIdOnBase :: "world \<Rightarrow> nat \<Rightarrow> sys \<Rightarrow> mint_result \<times> sys" where
  "mintDigitalIdOnBase w i s =
     (let st = log_effect EnvRead s in
      case ensureEnv (w_env w) of
        Inl msg \<Rightarrow> mint_catch i msg st
      | Inr (clientId, privateKey, appBaseUrl) \<Rightarrow>
          (case uniqueDigitalId_findUnique i st of
             None \<Rightarrow> mint_catch i (''UniqueDigitalId not found: '' @ show_nat i) st
           | Some digitalId \<Rightarrow>
               (case js_or (udi_privyWalletAddress digitalId) None of
                  None \<Rightarrow> mint_catch i ''Recipient wallet address (privyWalletAddress) is missing'' st
                | Some recipient \<Rightarrow>
                    (case resolveContractAddress (w_env w) st digitalId of
                       None \<Rightarrow>
                         mint_catch i
                           ''No contract address found for minting (set default or per-variant)'' st
                     | Some contractAddress \<Rightarrow>
                        (case w_getContract w clientId privateKey contractAddress of
                           Some msg \<Rightarrow> mint_catch i msg st
                         | None \<Rightarrow>
                         (case tryMintMethods w contractAddress recipient
                                 (metadataUrl appBaseUrl i) mintMethods (None, None, st) of
                            (None, lastError, st1) \<Rightarrow>
                              mint_catch i
                                (''Mint transaction failed: ''
                                 @ (case lastError of None \<Rightarrow> ''undefined'' | Some err \<Rightarrow> err)) st1
                          | (Some transactionHash, lastError, st1) \<Rightarrow>
                              (case uniqueDigitalId_update i MINTED
                                      (mintedData w contractAddress transactionHash) st1 of
                                 Inl e \<Rightarrow> mint_catch i ''Record to update not found.'' st1
                               | Inr st2 \<Rightarrow> (MintSuccess transactionHash, st2))))))))"

text \<open>
  \<open>queueTokenMinting\<close>. The first update is outside the \<open>try\<close>, so its error is the
  only one that reaches the caller; everything after it is caught.
\<close>

definition mintEnvPresent :: "env \<Rightarrow> bool" where
  "mintEnvPresent e =
     (truthy (BASE_MINTER_PRIVATE_KEY e) \<and> truthy (THIRDWEB_CLIENT_ID e) \<and> truthy (APP_BASE_URL e))"

definition queueTokenMinting :: "world \<Rightarrow> nat \<Rightarrow> sys \<Rightarrow> db_error + sys" where
  "queueTokenMinting w digitalIdId st =
     (case uniqueDigitalId_update digitalIdId MINT_PENDING (\<lambda>d. d) st of
        Inl e \<Rightarrow> Inl e
      | Inr st1 \<Rightarrow>
          let st2 = log_effect EnvRead st1 in
          if \<not> mintEnvPresent (w_env w) then Inr st2
          else
            let st3 = log_effect ModuleImport st2 in
            if \<not> w_mintModuleLoads w then Inr st3
            else Inr (snd (mintDigitalIdOnBase w digitalIdId st3)))"

section \<open>The digital-identity issuer\<close>

record line_item =
  li_id :: string
  li_shopifyId :: int
  li_variantId :: "int option"
  li_quantity :: int

record issue_args =
  a_shopId :: string
  a_shopifyOrderId :: string
  a_owner3faId :: string
  a_privyWalletAddress :: "string option"
  a_privyDid :: "string option"
  a_orders3faId :: string

record issue_results =
  created :: int
  failed :: int
  r_digitalIds :: "unique_digital_id list"

text \<open>\<open>!lineItem.variantId\<close> on a \<open>bigint | null\<close>: \<open>null\<close> and \<open>0n\<close> are falsy.\<close>

definition variantId_present :: "line_item \<Rightarrow> bool" where
  "variantId_present li = (case li_variantId li of None \<Rightarrow> False | Some v \<Rightarrow> v \<noteq> 0)"

definition shopifyVariantGid :: "line_item \<Rightarrow> string" where
  "shopifyVariantGid li =
     ''gid://shopify/ProductVariant/''
     @ (case li_variantId li of None \<Rightarrow> ''null'' | Some v \<Rightarrow> show_int v)"

definition coreProductVariant_findFirst :: "string \<Rightarrow> string \<Rightarrow> sys \<Rightarrow> core_product_variant option" where
  "coreProductVariant_findFirst gid shopId st =
     find (\<lambda>v. cpv_shopifyVariantGid v = gid \<and> cpv_myshopify_domain v = shopId) (variants st)"

definition shopifyLineItemGid :: "line_item \<Rightarrow> string" where
  "shopifyLineItemGid li = ''gid://shopify/LineItem/'' @ show_int (li_shopifyId li)"

text \<open>The uniqueness key of unit \<open>i\<close> (counted from 0) of a line item.\<close>

definition uniqueLineItemId :: "line_item \<Rightarrow> nat \<Rightarrow> string" where
  "uniqueLineItemId li i =
     (if li_quantity li > 1 then shopifyLineItemGid li @ '':'' @ show_nat (i + 1)
      else shopifyLineItemGid li)"

text \<open>The \<open>data\<close> of the insert for unit \<open>i\<close>; the id is set by the store.\<close>

definition newDigitalId ::
  "world \<Rightarrow> issue_args \<Rightarrow> core_product_variant \<Rightarrow> line_item \<Rightarrow> nat \<Rightarrow> unique_digital_id" where
  "newDigitalId w a coreVariant li i =
     \<lparr> udi_id = 0,
       udi_coreProductVariantId = cpv_id coreVariant,
       udi_myshopify_domain = a_shopId a,
       udi_brand_3fa_id = cpv_brand_3fa_id coreVariant,
       udi_shopifyOrderId = ''gid://shopify/Order/'' @ a_shopifyOrderId a,
       udi_shopifyLineItemId = uniqueLineItemId li i,
       udi_owner3faId = a_owner3faId a,
       udi_orders3faId = a_orders3faId a,
       udi_privyWalletAddress = a_privyWalletAddress a,
       udi_privyDid = a_privyDid a,
       udi_status = CREATED,
       udi_contractAddress =
         js_or (cpv_defaultSmartContractAddress coreVariant) (DEFAULT_CONTRACT_ADDRESS (w_env w)),
       udi_blockchain = None,
       udi_transactionHash = None,
       udi_mintedAt = None \<rparr>"

text \<open>
  The inner loop over the units of one line item. The first component of the result is
  the error that left the loop, if any; the counts and the store keep what the units
  before it did.
\<close>

fun issueUnits ::
  "world \<Rightarrow> issue_args \<Rightarrow> core_product_variant \<Rightarrow> line_item \<Rightarrow> nat list
     \<Rightarrow> issue_results \<times> sys \<Rightarrow> db_error option \<times> issue_results \<times> sys" where
  "issueUnits w a coreVariant li [] (results, st) = (None, results, st)"
| "issueUnits w a coreVariant li (i # rest) (results, st) =
     (case uniqueDigitalId_create (newDigitalId w a coreVariant li i) st of
        Inl e \<Rightarrow> (Some e, results, st)
      | Inr (digitalId, st1) \<Rightarrow>
          (case queueTokenMinting w (udi_id digitalId) st1 of
             Inl e \<Rightarrow> (Some e, results, st1)
           | Inr st2 \<Rightarrow>
               issueUnits w a coreVariant li rest
                 (results\<lparr> created := created results + 1,
                           r_digitalIds := r_digitalIds results @ [digitalId] \<rparr>, st2)))"

text \<open>The body of the loop over the line items, with its \<open>try\<close>/\<open>catch\<close>.\<close>

definition issueLineItem ::
  "world \<Rightarrow> issue_args \<Rightarrow> line_item \<Rightarrow> issue_results \<times> sys \<Rightarrow> issue_results \<times> sys" where
  "issueLineItem w a li acc =
     (case acc of (results, st) \<Rightarrow>
        if \<not> variantId_present li then (results, st)
        else
          (case coreProductVariant_findFirst (shopifyVariantGid li) (a_shopId a) st of
             None \<Rightarrow> (results\<lparr> failed := failed results + li_quantity li \<rparr>, st)
           | Some coreVariant \<Rightarrow>
               if \<not> truthy (cpv_brand_3fa_id coreVariant)
               then (results\<lparr> failed := failed results + li_quantity li \<rparr>, st)
               else
                 (case issueUnits w a coreVariant li [0 ..< nat (li_quantity li)] (results, st) of
                    (None, results', st') \<Rightarrow> (results', st')
                  | (Some e, results', st') \<Rightarrow>
                      (results'\<lparr> failed := failed results' + li_quantity li \<rparr>, st'))))"

definition issueLineItems ::
  "world \<Rightarrow> issue_args \<Rightarrow> line_item list \<Rightarrow> issue_results \<times> sys \<Rightarrow> issue_results \<times> sys" where
  "issueLineItems w a lineItems acc = foldl (\<lambda>acc li. issueLineItem w a li acc) acc lineItems"

definition createDigitalIdsForOrder ::
  "world \<Rightarrow> issue_args \<Rightarrow> line_item list \<Rightarrow> sys \<Rightarrow> issue_results \<times> sys" where
  "createDigitalIdsForOrder w a lineItems st =
     issueLineItems w a lineItems (\<lparr> created = 0, failed = 0, r_digitalIds = [] \<rparr>, st)"

section \<open>The worker: step 6, create digital IDs\<close>

text \<open>The order status chosen from the counts that issuance returned.\<close>

definition udiOrderStatus :: "issue_results \<Rightarrow> order_status" where
  "udiOrderStatus digitalIdResults =
     (if failed digitalIdResults = 0 then COMPLETED
      else if created digitalIdResults > 0 then PARTIALLY_COMPLETED
      else FAILED_UDI_CREATION)"

text \<open>
  Step 6 of \<open>processor\<close>. \<open>issue\<close> is the call of the issuer on the mirrored line
  items: it returns the counts or throws (the message on the left), and in both cases the
  store it leaves. \<open>user3fa\<close>, \<open>orders3fa\<close> and \<open>orderDbId\<close> are the ids of the
  records the earlier steps established, if any. An error of the result is one that
  leaves the step and fails the job.
\<close>

definition createDigitalIdsStep ::
  "(sys \<Rightarrow> (string + issue_results) \<times> sys) \<Rightarrow> string option \<Rightarrow> string option \<Rightarrow> string option
     \<Rightarrow> sys \<Rightarrow> db_error + sys" where
  "createDigitalIdsStep issue user3fa orders3fa orderDbId st =
     (if user3fa \<noteq> None \<and> orders3fa \<noteq> None \<and> orderDbId \<noteq> None
      then
        (case orders3fa of
           None \<Rightarrow> Inr st
         | Some oid \<Rightarrow>
             (case issue st of
                (Inl err, st1) \<Rightarrow> orders3fa_update oid FAILED_UDI_CREATION_ERROR st1
              | (Inr digitalIdResults, st1) \<Rightarrow>
                  (case orders3fa_update oid (udiOrderStatus digitalIdResults) st1 of
                     Inr st2 \<Rightarrow> Inr st2
                   | Inl e \<Rightarrow> orders3fa_update oid FAILED_UDI_CREATION_ERROR st1)))
      else
        (case orders3fa of
           None \<Rightarrow> Inr st
         | Some oid \<Rightarrow> orders3fa_update oid FAILED_PREREQUISITES_FOR_UDI st))"

text \<open>The issuer as the worker calls it: nothing it does throws to the worker.\<close>

definition issueForJob ::
  "world \<Rightarrow> issue_args \<Rightarrow> line_item list \<Rightarrow> sys \<Rightarrow> (string + issue_results) \<times> sys" where
  "issueForJob w a lineItems st =
     (case createDigitalIdsForOrder w a lineItems st of (results, st') \<Rightarrow> (Inr results, st'))"

definition orderStatusOf :: "string \<Rightarrow> sys \<Rightarrow> order_status option" where
  "orderStatusOf oid st = map_option o3_status (find (\<lambda>r. o3_id r = oid) (orders st))"

section \<open>The worker: processor\<close>






















section \<open>Relations between stores used in the proofs\<close>

text \<open>The same rows, by id and uniqueness key, and the same variants and orders.\<close>

definition same_rows :: "sys \<Rightarrow> sys \<Rightarrow> bool" where
  "same_rows st st' =
     (map udi_id (digitalIds st') = map udi_id (digitalIds st) \<and>
      map udi_shopifyLineItemId (digitalIds st') = map udi_shopifyLineItemId (digitalIds st) \<and>
      variants st' = variants st \<and> orders st' = orders st)"

text \<open>An effect that does not write the status \<open>CREATED\<close> to any row.\<close>

definition no_created_write :: "effect \<Rightarrow> bool" where
  "no_created_write e = (case e of StatusWrite j s \<Rightarrow> s \<noteq> CREATED | _ \<Rightarrow> True)"

definition extends_trace :: "sys \<Rightarrow> sys \<Rightarrow> bool" where
  "extends_trace st st' = (\<exists>more. trace st' = trace st @ more \<and> list_all no_created_write more)"

text \<open>No row with id \<open>i\<close> is at status \<open>CREATED\<close>.\<close>

definition not_created :: "nat \<Rightarrow> sys \<Rightarrow> bool" where
  "not_created i st = list_all (\<lambda>d. udi_id d = i \<longrightarrow> udi_status d \<noteq> CREATED) (digitalIds st)"

definition keysOf :: "sys \<Rightarrow> string list" where
  "keysOf st = map udi_shopifyLineItemId (digitalIds st)"

text \<open>
  A line item whose product variant resolves: it has a variant reference, the variant
  record is found for the shop, and the record has its brand linkage.
\<close>

definition resolvableVariant :: "issue_args \<Rightarrow> line_item \<Rightarrow> sys \<Rightarrow> bool" where
  "resolvableVariant a li st =
     (variantId_present li \<and>
      (case coreProductVariant_findFirst (shopifyVariantGid li) (a_shopId a) st of
         None \<Rightarrow> False
       | Some coreVariant \<Rightarrow> truthy (cpv_brand_3fa_id coreVariant)))"

text \<open>
  From one accumulator of the line-item loop to a later one: keys are only appended, keys
  that were distinct stay distinct, and as many rows are inserted as units are counted and
  returned; variants and orders are untouched.
\<close>

definition grows :: "issue_results \<times> sys \<Rightarrow> issue_results \<times> sys \<Rightarrow> bool" where
  "grows acc acc' =
     (case (acc, acc') of ((r, st), (r', st')) \<Rightarrow>
        (\<exists>new. keysOf st' = keysOf st @ new
              \<and> (distinct (keysOf st) \<longrightarrow> distinct (keysOf st'))
              \<and> int (length (digitalIds st')) = int (length (digitalIds st)) + int (length new)
              \<and> created r' = created r + int (length new)
              \<and> length (r_digitalIds r') = length (r_digitalIds r) + length new)
        \<and> variants st' = variants st \<and> orders st' = orders st)"

text \<open>Two accumulators of the line-item loop with the same counts, keys and variants.\<close>

definition same_counts :: "issue_results \<times> sys \<Rightarrow> issue_results \<times> sys \<Rightarrow> bool" where
  "same_counts acc1 acc2 =
     (created (fst acc1) = created (fst acc2) \<and> failed (fst acc1) = failed (fst acc2) \<and>
      keysOf (snd acc1) = keysOf (snd acc2) \<and> variants (snd acc1) = variants (snd acc2))"

section \<open>Concrete inputs for the examples\<close>

definition env_configured :: env where
  "env_configured =
     \<lparr> BASE_MINTER_PRIVATE_KEY =
         Some ''0x0123456789abcdef0123456789abcdef0123456789abcdef0123456789abcdef'',
       THIRDWEB_CLIENT_ID = Some ''client-1'',
       APP_BASE_URL = Some ''https://app.example/'',
       DEFAULT_CONTRACT_ADDRESS = None,
       BASE_CHAIN_ID = Some ''8453'' \<rparr>"

definition env_unconfigured :: env where
  "env_unconfigured =
     \<lparr> BASE_MINTER_PRIVATE_KEY = None, THIRDWEB_CLIENT_ID = Some ''client-1'',
       APP_BASE_URL = Some ''https://app.example/'', DEFAULT_CONTRACT_ADDRESS = None,
       BASE_CHAIN_ID = None \<rparr>"

definition chain_accepts_all :: "string \<Rightarrow> string \<Rightarrow> string \<Rightarrow> string \<Rightarrow> string + string" where
  "chain_accepts_all method contract recipient url = Inr ''0xaa01''"

definition chain_only_safeMint :: "string \<Rightarrow> string \<Rightarrow> string \<Rightarrow> string \<Rightarrow> string + string" where
  "chain_only_safeMint method contract recipient url =
     (if method = ''function safeMint(address to, string uri)'' then Inr ''0xbb02''
      else Inl ''execution reverted'')"

definition chain_rejects_all :: "string \<Rightarrow> string \<Rightarrow> string \<Rightarrow> string \<Rightarrow> string + string" where
  "chain_rejects_all method contract recipient url =
     (if method = ''function safeMint(address to, string uri)'' then Inl ''no safeMint''
      else Inl ''no mintTo'')"

text \<open>A contract handle can be built for an address of 40 hex digits after \<open>0x\<close>.\<close>

definition getContract_checks_address :: "string \<Rightarrow> string \<Rightarrow> string \<Rightarrow> string option" where
  "getContract_checks_address clientId privateKey address =
     (if take 2 address = ''0x'' \<and> length address = 42 \<and> list_all is_hex (drop 2 address)
      then None else Some (''Invalid address: '' @ address))"

definition world_of ::
  "env \<Rightarrow> (string \<Rightarrow> string \<Rightarrow> string \<Rightarrow> string \<Rightarrow> string + string) \<Rightarrow> world" where
  "world_of e c =
     \<lparr> w_env = e, w_getContract = getContract_checks_address, w_chain = c,
       w_mintModuleLoads = True, w_now = 1700000000 \<rparr>"

definition ex_variant :: core_product_variant where
  "ex_variant =
     \<lparr> cpv_id = ''cv-1'', cpv_shopifyVariantGid = ''gid://shopify/ProductVariant/42'',
       cpv_myshopify_domain = ''s.myshopify.com'', cpv_brand_3fa_id = Some ''brand-1'',
       cpv_defaultSmartContractAddress = Some ''0x00000000000000000000000000000000000000c0'' \<rparr>"

definition ex_sys :: sys where
  "ex_sys =
     \<lparr> variants = [ex_variant], digitalIds = [],
       orders = [\<lparr> o3_id = ''o-1'', o3_user3faId = ''u-1'', o3_shopifyOrderId = ''1001'',
                  o3_status = WALLET_PROVISIONED, o3_totalItems = 4,
                  o3_smsNotificationSentAt = None \<rparr>],
       trace = [] \<rparr>"

definition ex_args :: issue_args where
  "ex_args =
     \<lparr> a_shopId = ''s.myshopify.com'', a_shopifyOrderId = ''1001'', a_owner3faId = ''u-1'',
       a_privyWalletAddress = Some ''0x00000000000000000000000000000000000000a1'', a_privyDid = Some ''did:privy:1'',
       a_orders3faId = ''o-1'' \<rparr>"

definition li_three :: line_item where
  "li_three = \<lparr> li_id = ''li-1'', li_shopifyId = 7, li_variantId = Some 42, li_quantity = 3 \<rparr>"

definition li_one :: line_item where
  "li_one = \<lparr> li_id = ''li-2'', li_shopifyId = 8, li_variantId = Some 42, li_quantity = 1 \<rparr>"

definition li_no_variant :: line_item where
  "li_no_variant = \<lparr> li_id = ''li-3'', li_shopifyId = 9, li_variantId = None, li_quantity = 2 \<rparr>"

definition li_unknown_variant :: line_item where
  "li_unknown_variant =
     \<lparr> li_id = ''li-4'', li_shopifyId = 10, li_variantId = Some 99, li_quantity = 1 \<rparr>"

definition ex_row :: unique_digital_id where
  "ex_row =
     \<lparr> udi_id = 0, udi_coreProductVariantId = ''cv-1'', udi_myshopify_domain = ''s.myshopify.com'',
       udi_brand_3fa_id = Some ''brand-1'', udi_shopifyOrderId = ''gid://shopify/Order/1001'',
       udi_shopifyLineItemId = ''gid://shopify/LineItem/8'', udi_owner3faId = ''u-1'',
       udi_orders3faId = ''o-1'', udi_privyWalletAddress = Some ''0x00000000000000000000000000000000000000a1'',
       udi_privyDid = Some ''did:privy:1'', udi_status = CREATED,
       udi_contractAddress = Some ''0x00000000000000000000000000000000000000c0'', udi_blockchain = None, udi_transactionHash = None,
       udi_mintedAt = None \<rparr>"

definition ex_sys_issued :: sys where
  "ex_sys_issued = ex_sys\<lparr> digitalIds := [ex_row] \<rparr>"

definition li_one_b :: line_item where
  "li_one_b = \<lparr> li_id = ''li-5'', li_shopifyId = 11, li_variantId = Some 42, li_quantity = 1 \<rparr>"








section \<open>Intake: replay of a dedup key\<close>

lemma create_unique_stored:
  "k \<in> set (eventIds st) \<Longrightarrow> webhookEvent_create True s t p k st = Inl UniqueConstraintViolation"
  by (auto simp: webhookEvent_create_def eventIds_def Let_def split: if_splits)

lemma action_rejected:
  "\<not> intake_accepts auth \<Longrightarrow> snd (action u now hdr auth st) = st"
  by (auto simp: action_def intake_accepts_def Let_def split: option.splits if_splits)

lemma action_stored:
  "k \<in> set (eventIds st) \<Longrightarrow> snd (action True now (Some k) auth st) = st"
  by (auto simp: action_def Let_def create_unique_stored split: option.splits if_splits)

lemma action_stored_response:
  "k \<in> set (eventIds st) \<Longrightarrow> intake_accepts auth \<Longrightarrow> fst (action True now (Some k) auth st) = internal_error_response"
  by (auto simp: action_def Let_def create_unique_stored intake_accepts_def split: option.splits if_splits)

lemma action_accepted_fresh:
  assumes "intake_accepts auth" "\<not> (u \<and> k \<in> set (eventIds st))"
  shows "eventIds (snd (action u now (Some k) auth st)) = eventIds st @ [k]"
  using assms
  by (auto simp: action_def Let_def intake_accepts_def queue_add_def eventIds_def
        webhookEvent_create_def webhookEvent_update_def
      split: option.splits if_splits sum.splits)

lemma action_jobs:
  "length (jobs (snd (action u now hdr auth st))) \<le> length (jobs st) + 1"
  by (auto simp: action_def Let_def queue_add_def
        webhookEvent_create_def webhookEvent_update_def
      split: option.splits if_splits sum.splits)

lemma action_status: "resp_status (fst (action u now hdr auth st)) = 200"
  by (auto simp: action_def Let_def internal_error_response_def
      split: option.splits if_splits sum.splits)

lemma distinct_count_le: "distinct (map f xs) \<Longrightarrow> length (filter (\<lambda>e. f e = k) xs) \<le> 1"
  by (induction xs) (auto simp: filter_empty_conv image_iff)

text \<open>
  C1 (as amended). With a unique constraint on \<open>eventId\<close>, ingesting the same dedup key
  twice leaves at most one stored event for the key and at most one more queued job; the
  second ingest changes neither the stored events nor the queue and is answered with
  status 200. When the context passes the handler's checks, exactly one event is stored
  for the key, and the second ingest is answered through the catch-all error path (the
  insert throws on the duplicate key), not with the first ingest's response.
\<close>

theorem C1_intake_replay:
  assumes "distinct (map we_eventId (events st))"
  shows "snd (action True now2 (Some k) auth (snd (action True now1 (Some k) auth st)))
           = snd (action True now1 (Some k) auth st)
       \<and> length (filter (\<lambda>e. we_eventId e = k) (events (snd (action True now1 (Some k) auth st)))) \<le> 1
       \<and> length (jobs (snd (action True now1 (Some k) auth st))) \<le> length (jobs st) + 1
       \<and> resp_status (fst (action True now2 (Some k) auth (snd (action True now1 (Some k) auth st)))) = 200
       \<and> (intake_accepts auth \<longrightarrow>
            length (filter (\<lambda>e. we_eventId e = k) (events (snd (action True now1 (Some k) auth st)))) = 1
          \<and> fst (action True now2 (Some k) auth (snd (action True now1 (Some k) auth st)))
              = internal_error_response)"
proof -
  let ?s1 = "snd (action True now1 (Some k) auth st)"
  have stored: "intake_accepts auth \<Longrightarrow> k \<in> set (eventIds ?s1)"
  proof (cases "k \<in> set (eventIds st)")
    case True
    then show ?thesis by (simp add: action_stored)
  next
    case False
    assume "intake_accepts auth"
    then show ?thesis using False by (simp add: action_accepted_fresh)
  qed
  have same: "snd (action True now2 (Some k) auth ?s1) = ?s1"
  proof (cases "intake_accepts auth")
    case True
    then show ?thesis using stored action_stored by blast
  next
    case False
    then show ?thesis by (simp add: action_rejected)
  qed
  have dist: "distinct (eventIds ?s1)"
  proof (cases "intake_accepts auth \<and> k \<notin> set (eventIds st)")
    case True
    then have "eventIds ?s1 = eventIds st @ [k]" by (simp add: action_accepted_fresh)
    then show ?thesis using assms True by (simp add: eventIds_def)
  next
    case False
    then have "?s1 = st" using action_rejected action_stored by blast
    then show ?thesis using assms by (simp add: eventIds_def)
  qed
  have le: "length (filter (\<lambda>e. we_eventId e = k) (events ?s1)) \<le> 1"
    using dist distinct_count_le[of we_eventId "events ?s1" k] by (simp add: eventIds_def)
  have ge: "intake_accepts auth \<Longrightarrow> length (filter (\<lambda>e. we_eventId e = k) (events ?s1)) \<ge> 1"
  proof -
    assume "intake_accepts auth"
    then have "k \<in> set (eventIds ?s1)" by (rule stored)
    then obtain e where "e \<in> set (events ?s1)" "we_eventId e = k" by (auto simp: eventIds_def)
    then have "filter (\<lambda>e. we_eventId e = k) (events ?s1) \<noteq> []" by (auto simp: filter_empty_conv)
    then show ?thesis by (cases "filter (\<lambda>e. we_eventId e = k) (events ?s1)") auto
  qed
  have resp: "intake_accepts auth \<Longrightarrow> fst (action True now2 (Some k) auth ?s1) = internal_error_response"
    using stored action_stored_response by blast
  show ?thesis using same le ge resp action_jobs[of True now1 "Some k" auth st] action_status
    by (auto simp: le_antisym)
qed

theorem C1_intake_replay_witness:
  "distinct (map we_eventId (events empty_intake)) \<and> intake_accepts (Some ex_ctx) \<and>
   snd (action True 6 (Some ''k'') (Some ex_ctx) (snd (action True 5 (Some ''k'') (Some ex_ctx) empty_intake)))
           = snd (action True 5 (Some ''k'') (Some ex_ctx) empty_intake)
   \<and> length (filter (\<lambda>e. we_eventId e = ''k'') (events (snd (action True 5 (Some ''k'') (Some ex_ctx) empty_intake)))) = 1
   \<and> fst (action True 6 (Some ''k'') (Some ex_ctx) (snd (action True 5 (Some ''k'') (Some ex_ctx) empty_intake)))
              = internal_error_response"
proof -
  have d: "distinct (map we_eventId (events empty_intake))" by (simp add: empty_intake_def)
  have a: "intake_accepts (Some ex_ctx)" by code_simp
  show ?thesis using d a C1_intake_replay[OF d, of 6 "''k''" "Some ex_ctx" 5] by simp
qed

text \<open>
  The claim as stated fails under either schema: with the unique constraint the second
  ingest does not return the first one's response; without it two events are stored for
  the same key.
\<close>

theorem C1_replay_counterexample:
  "fst (action True 6 (Some ''k'') (Some ex_ctx) (snd (action True 5 (Some ''k'') (Some ex_ctx) empty_intake)))
     \<noteq> fst (action True 5 (Some ''k'') (Some ex_ctx) empty_intake)
   \<and> length (filter (\<lambda>e. we_eventId e = ''k'')
        (events (snd (action False 6 (Some ''k'') (Some ex_ctx) (snd (action False 5 (Some ''k'') (Some ex_ctx) empty_intake)))))) = 2"
  by code_simp

section \<open>Intake: the phone chain\<close>

text \<open>
  The short-circuit itself: whenever the chain yields no usable phone for an accepted
  context, the event is stored and marked processed with the note, no job is queued, and
  the handler acknowledges.
\<close>

lemma no_phone_short_circuit:
  assumes "intake_accepts (Some ctx)" and "ctx_payload ctx = Some payload"
      and "\<not> truthy (customerPhone payload)" and "\<not> (uniq \<and> k \<in> set (eventIds st))"
  shows "jobs (snd (action uniq now (Some k) (Some ctx) st)) = jobs st
       \<and> fst (action uniq now (Some k) (Some ctx) st)
           = \<lparr> resp_body = Some ''Acknowledged, no phone number.'', resp_status = 200 \<rparr>
       \<and> length (events (snd (action uniq now (Some k) (Some ctx) st))) = Suc (length (events st))
       \<and> we_eventId (last (events (snd (action uniq now (Some k) (Some ctx) st)))) = k
       \<and> we_processed (last (events (snd (action uniq now (Some k) (Some ctx) st))))
       \<and> we_lastError (last (events (snd (action uniq now (Some k) (Some ctx) st))))
           = Some ''Skipped: No customer phone number found in payload.''"
  using assms
  by (auto simp: action_def Let_def intake_accepts_def eventIds_def
        webhookEvent_create_def webhookEvent_update_def
      split: option.splits if_splits)

text \<open>
  C5. The payload carries an empty direct phone and a shipping-address phone. The chain
  stops at the first value that is not \<open>null\<close> or \<open>undefined\<close>, so it yields the
  empty string; the handler then takes the no-phone branch: the stored event is marked
  processed with the note that no phone number was found in the payload, and no job is
  queued, although the shipping address has a phone.
\<close>

theorem C5_empty_direct_phone_masks_shipping_phone:
  "customerPhone empty_phone_payload = Some []
   \<and> jobs (snd (action True 7 (Some ''k5'') (Some empty_phone_ctx) empty_intake)) = []
   \<and> map we_processed (events (snd (action True 7 (Some ''k5'') (Some empty_phone_ctx) empty_intake))) = [True]
   \<and> map we_lastError (events (snd (action True 7 (Some ''k5'') (Some empty_phone_ctx) empty_intake)))
        = [Some ''Skipped: No customer phone number found in payload.'']
   \<and> fst (action True 7 (Some ''k5'') (Some empty_phone_ctx) empty_intake)
        = \<lparr> resp_body = Some ''Acknowledged, no phone number.'', resp_status = 200 \<rparr>"
  by code_simp

section \<open>Minting: what the store keeps and what the trace shows\<close>

lemma same_rows_trans: "same_rows a b \<Longrightarrow> same_rows b c \<Longrightarrow> same_rows a c"
  by (simp add: same_rows_def)

lemma same_rows_log: "same_rows st (log_effect e st)"
  by (simp add: same_rows_def log_effect_def)

lemma update_same_rows:
  assumes "uniqueDigitalId_update i s f st = Inr st'"
      and "\<And>d. udi_id (f d) = udi_id d"
      and "\<And>d. udi_shopifyLineItemId (f d) = udi_shopifyLineItemId d"
  shows "same_rows st st'"
proof -
  have a: "map udi_id (map (\<lambda>d. if udi_id d = i then (f d)\<lparr> udi_status := s \<rparr> else d) xs) = map udi_id xs" for xs
    by (induction xs) (simp_all add: assms(2))
  have b: "map udi_shopifyLineItemId (map (\<lambda>d. if udi_id d = i then (f d)\<lparr> udi_status := s \<rparr> else d) xs)
             = map udi_shopifyLineItemId xs" for xs
    by (induction xs) (simp_all add: assms(3))
  from assms(1) have "st' = st\<lparr> digitalIds :=
                       map (\<lambda>d. if udi_id d = i then (f d)\<lparr> udi_status := s \<rparr> else d) (digitalIds st),
                     trace := trace st @ [StatusWrite i s] \<rparr>"
    by (simp add: uniqueDigitalId_update_def split: if_splits)
  then show ?thesis using a b by (simp add: same_rows_def)
qed

lemma update_Inr:
  "i \<in> set (map udi_id (digitalIds st)) \<Longrightarrow> \<exists>st'. uniqueDigitalId_update i s f st = Inr st'"
  by (simp add: uniqueDigitalId_update_def)

lemma update_trace:
  "uniqueDigitalId_update i s f st = Inr st' \<Longrightarrow> trace st' = trace st @ [StatusWrite i s]"
  by (auto simp: uniqueDigitalId_update_def split: if_splits)

lemma mint_catch_same_rows: "same_rows st s \<Longrightarrow> same_rows st (snd (mint_catch i msg s))"
proof (cases "uniqueDigitalId_update i MINT_FAILED (\<lambda>d. d) s")
  case (Inl e)
  assume "same_rows st s"
  then show ?thesis using Inl by (simp add: mint_catch_def)
next
  case (Inr s')
  then have "same_rows s s'" by (rule update_same_rows) simp_all
  moreover assume "same_rows st s"
  ultimately have "same_rows st s'" by (rule same_rows_trans[rotated])
  then show ?thesis using Inr by (simp add: mint_catch_def)
qed

lemma tryMintMethods_rows:
  "tryMintMethods w c r u ms (rc, le, st) = (rc', le', st') \<Longrightarrow>
     digitalIds st' = digitalIds st \<and> variants st' = variants st \<and> orders st' = orders st"
proof (induction ms arbitrary: rc le st)
  case Nil
  then show ?case by simp
next
  case (Cons m ms)
  show ?case
  proof (cases "w_chain w m c r u")
    case (Inl err)
    with Cons.prems have "tryMintMethods w c r u ms (rc, Some err, log_effect (ChainCall m c r u) st) = (rc', le', st')"
      by (simp add: Let_def)
    from Cons.IH[OF this] show ?thesis by (simp add: log_effect_def)
  next
    case (Inr tx)
    with Cons.prems show ?thesis by (auto simp: Let_def log_effect_def)
  qed
qed

lemma tryMintMethods_same_rows:
  "tryMintMethods w c r u ms (rc, le, s) = (rc', le', s') \<Longrightarrow> same_rows st s \<Longrightarrow> same_rows st s'"
  using tryMintMethods_rows[of w c r u ms rc le s rc' le' s'] by (simp add: same_rows_def)

lemma minted_update_same_rows:
  assumes "uniqueDigitalId_update i MINTED (mintedData w c t) s = Inr s'"
      and "same_rows st s"
  shows "same_rows st s'"
proof -
  have "same_rows s s'" using assms(1) by (rule update_same_rows) (simp_all add: mintedData_def)
  then show ?thesis using assms(2) same_rows_trans by blast
qed

lemma mintDigitalIdOnBase_same_rows: "same_rows st s \<Longrightarrow> same_rows st (snd (mintDigitalIdOnBase w i s))"
proof -
  assume "same_rows st s"
  then have l: "same_rows st (log_effect EnvRead s)"
    using same_rows_log same_rows_trans by blast
  show ?thesis
    unfolding mintDigitalIdOnBase_def Let_def
    by (auto split: sum.splits option.splits prod.splits;
        blast intro: l mint_catch_same_rows tryMintMethods_same_rows minted_update_same_rows)
qed

lemma queueTokenMinting_ok:
  assumes "i \<in> set (map udi_id (digitalIds st))"
  shows "\<exists>st'. queueTokenMinting w i st = Inr st' \<and> same_rows st st'"
proof -
  from assms obtain st1 where u: "uniqueDigitalId_update i MINT_PENDING (\<lambda>d. d) st = Inr st1"
    using update_Inr by blast
  then have s1: "same_rows st st1" by (rule update_same_rows) simp_all
  have s2: "same_rows st (log_effect EnvRead st1)"
    using s1 same_rows_log same_rows_trans by blast
  have s3: "same_rows st (log_effect ModuleImport (log_effect EnvRead st1))"
    using s2 same_rows_log same_rows_trans by blast
  have s4: "same_rows st (snd (mintDigitalIdOnBase w i (log_effect ModuleImport (log_effect EnvRead st1))))"
    using s3 by (rule mintDigitalIdOnBase_same_rows)
  show ?thesis using u s2 s3 s4 by (simp add: queueTokenMinting_def Let_def)
qed

lemma queueTokenMinting_missing:
  "i \<notin> set (map udi_id (digitalIds st)) \<Longrightarrow> queueTokenMinting w i st = Inl RecordNotFound"
  by (simp add: queueTokenMinting_def uniqueDigitalId_update_def)

lemma extends_trace_refl: "extends_trace st st"
  by (simp add: extends_trace_def)

lemma extends_trace_log: "no_created_write e \<Longrightarrow> extends_trace st s \<Longrightarrow> extends_trace st (log_effect e s)"
  by (auto simp: extends_trace_def log_effect_def)

lemma extends_trace_update:
  "uniqueDigitalId_update i s f st1 = Inr st2 \<Longrightarrow> s \<noteq> CREATED \<Longrightarrow> extends_trace st st1
     \<Longrightarrow> extends_trace st st2"
  by (auto simp: extends_trace_def no_created_write_def dest!: update_trace)

lemma mint_catch_extends_trace: "extends_trace st s \<Longrightarrow> extends_trace st (snd (mint_catch i msg s))"
  by (cases "uniqueDigitalId_update i MINT_FAILED (\<lambda>d. d) s")
     (auto simp: mint_catch_def intro: extends_trace_update)

lemma tryMintMethods_extends_trace:
  "tryMintMethods w c r u ms (rc, le, s) = (rc', le', s') \<Longrightarrow> extends_trace st s \<Longrightarrow> extends_trace st s'"
proof (induction ms arbitrary: rc le s)
  case Nil
  then show ?case by simp
next
  case (Cons m ms)
  have l: "extends_trace st (log_effect (ChainCall m c r u) s)"
    using Cons.prems(2) by (rule extends_trace_log[rotated]) (simp add: no_created_write_def)
  show ?case
  proof (cases "w_chain w m c r u")
    case (Inl err)
    with Cons.prems(1) have "tryMintMethods w c r u ms (rc, Some err, log_effect (ChainCall m c r u) s) = (rc', le', s')"
      by (simp add: Let_def)
    then show ?thesis using l by (rule Cons.IH)
  next
    case (Inr tx)
    with Cons.prems(1) l show ?thesis by (auto simp: Let_def)
  qed
qed

lemma minted_update_extends_trace:
  "uniqueDigitalId_update i MINTED f s = Inr s' \<Longrightarrow> extends_trace st s \<Longrightarrow> extends_trace st s'"
  by (erule extends_trace_update) simp_all

lemma mintDigitalIdOnBase_extends_trace:
  "extends_trace st s \<Longrightarrow> extends_trace st (snd (mintDigitalIdOnBase w i s))"
proof -
  assume "extends_trace st s"
  then have l: "extends_trace st (log_effect EnvRead s)"
    by (rule extends_trace_log[rotated]) (simp add: no_created_write_def)
  show ?thesis
    unfolding mintDigitalIdOnBase_def Let_def
    by (auto split: sum.splits option.splits prod.splits;
        blast intro: l mint_catch_extends_trace tryMintMethods_extends_trace minted_update_extends_trace)
qed

lemma not_created_log: "not_created i (log_effect e s) = not_created i s"
  by (simp add: not_created_def log_effect_def)

lemma not_created_update:
  "uniqueDigitalId_update j s f st1 = Inr st2 \<Longrightarrow> s \<noteq> CREATED \<Longrightarrow> not_created i st1 \<Longrightarrow> not_created i st2"
  by (auto simp: not_created_def uniqueDigitalId_update_def list_all_iff split: if_splits)

lemma not_created_first_update:
  "uniqueDigitalId_update i s f st1 = Inr st2 \<Longrightarrow> s \<noteq> CREATED \<Longrightarrow> (\<And>d. udi_id (f d) = udi_id d) \<Longrightarrow> not_created i st2"
  by (auto simp: not_created_def uniqueDigitalId_update_def list_all_iff split: if_splits)

lemma mint_catch_not_created: "not_created j s \<Longrightarrow> not_created j (snd (mint_catch i msg s))"
  by (cases "uniqueDigitalId_update i MINT_FAILED (\<lambda>d. d) s")
     (auto simp: mint_catch_def intro: not_created_update)

lemma tryMintMethods_not_created:
  "tryMintMethods w c r u ms (rc, le, s) = (rc', le', s') \<Longrightarrow> not_created j s \<Longrightarrow> not_created j s'"
  using tryMintMethods_rows[of w c r u ms rc le s rc' le' s'] by (simp add: not_created_def)

lemma minted_update_not_created:
  "uniqueDigitalId_update i MINTED f s = Inr s' \<Longrightarrow> not_created j s \<Longrightarrow> not_created j s'"
  by (erule not_created_update) simp_all

lemma mintDigitalIdOnBase_not_created:
  "not_created j s \<Longrightarrow> not_created j (snd (mintDigitalIdOnBase w i s))"
proof -
  assume "not_created j s"
  then have l: "not_created j (log_effect EnvRead s)"
    by (simp add: not_created_log)
  show ?thesis
    unfolding mintDigitalIdOnBase_def Let_def
    by (auto split: sum.splits option.splits prod.splits;
        blast intro: l mint_catch_not_created tryMintMethods_not_created minted_update_not_created)
qed

text \<open>
  C9. \<open>queueTokenMinting\<close> writes \<open>MINT_PENDING\<close> first: when the row does not
  exist that write throws and nothing else happens; otherwise the call returns, the first
  effect it adds to the trace is the write of \<open>MINT_PENDING\<close> to the row, every
  read of the configuration, import of the minting module and contract call comes after
  it, no later effect writes \<open>CREATED\<close>, and the row is not at \<open>CREATED\<close>
  afterwards.
\<close>

theorem C9_pending_before_any_external_call:
  "(i \<notin> set (map udi_id (digitalIds st)) \<longrightarrow> queueTokenMinting w i st = Inl RecordNotFound)
   \<and> (i \<in> set (map udi_id (digitalIds st)) \<longrightarrow>
        (\<exists>st' more. queueTokenMinting w i st = Inr st'
           \<and> trace st' = trace st @ StatusWrite i MINT_PENDING # more
           \<and> list_all no_created_write more
           \<and> not_created i st'))"
proof (intro conjI impI)
  assume "i \<notin> set (map udi_id (digitalIds st))"
  then show "queueTokenMinting w i st = Inl RecordNotFound" by (rule queueTokenMinting_missing)
next
  assume "i \<in> set (map udi_id (digitalIds st))"
  then obtain st1 where u: "uniqueDigitalId_update i MINT_PENDING (\<lambda>d. d) st = Inr st1"
    using update_Inr by blast
  have t1: "trace st1 = trace st @ [StatusWrite i MINT_PENDING]" using u by (rule update_trace)
  have n1: "not_created i st1" using u by (rule not_created_first_update) simp_all
  let ?st2 = "log_effect EnvRead st1"
  let ?st3 = "log_effect ModuleImport ?st2"
  let ?st4 = "snd (mintDigitalIdOnBase w i ?st3)"
  have e2: "extends_trace st1 ?st2"
    by (rule extends_trace_log[OF _ extends_trace_refl]) (simp add: no_created_write_def)
  have e3: "extends_trace st1 ?st3"
    by (rule extends_trace_log[OF _ e2]) (simp add: no_created_write_def)
  have e4: "extends_trace st1 ?st4" using e3 by (rule mintDigitalIdOnBase_extends_trace)
  have n2: "not_created i ?st2" using n1 by (simp add: not_created_log)
  have n3: "not_created i ?st3" using n2 by (simp add: not_created_log)
  have n4: "not_created i ?st4" using n3 by (rule mintDigitalIdOnBase_not_created)
  have "\<exists>st'. queueTokenMinting w i st = Inr st' \<and> (st' = ?st2 \<or> st' = ?st3 \<or> st' = ?st4)"
    using u by (simp add: queueTokenMinting_def Let_def)
  then obtain st' where q: "queueTokenMinting w i st = Inr st'" and
     c: "st' = ?st2 \<or> st' = ?st3 \<or> st' = ?st4"
    by blast
  from c e2 e3 e4 have "extends_trace st1 st'" by blast
  then obtain more where "trace st' = trace st1 @ more" "list_all no_created_write more"
    by (auto simp: extends_trace_def)
  moreover from c n2 n3 n4 have "not_created i st'" by blast
  ultimately show "\<exists>st' more. queueTokenMinting w i st = Inr st'
           \<and> trace st' = trace st @ StatusWrite i MINT_PENDING # more
           \<and> list_all no_created_write more \<and> not_created i st'"
    using q t1 by auto
qed

text \<open>
  A stored row and a missing one, with a chain that rejects every method.
\<close>

theorem C9_pending_before_any_external_call_witness:
  "0 \<in> set (map udi_id (digitalIds ex_sys_issued))
   \<and> 5 \<notin> set (map udi_id (digitalIds ex_sys_issued))
   \<and> queueTokenMinting (world_of env_configured chain_rejects_all) 5 ex_sys_issued = Inl RecordNotFound
   \<and> (\<exists>st' more.
         queueTokenMinting (world_of env_configured chain_rejects_all) 0 ex_sys_issued = Inr st'
       \<and> trace st' = trace ex_sys_issued @ StatusWrite 0 MINT_PENDING # more
       \<and> list_all no_created_write more \<and> not_created 0 st')"
proof -
  have h1: "0 \<in> set (map udi_id (digitalIds ex_sys_issued))" by code_simp
  have h2: "5 \<notin> set (map udi_id (digitalIds ex_sys_issued))" by code_simp
  show ?thesis
    using h1 h2
      C9_pending_before_any_external_call [of 0 ex_sys_issued "world_of env_configured chain_rejects_all"]
      C9_pending_before_any_external_call [of 5 ex_sys_issued "world_of env_configured chain_rejects_all"]
    by blast
qed

text \<open>
  C7. When the minter private key, the client id or the app base URL is absent (or
  empty) and minting is triggered for a stored digital identity, the trigger returns
  without error; all it does is write \<open>MINT_PENDING\<close> to the row and read the
  configuration: no import of the minting module, no contract call, no
  \<open>MINT_FAILED\<close>.
\<close>

theorem C7_unconfigured_stays_pending:
  assumes "\<not> mintEnvPresent (w_env w)" and "i \<in> set (map udi_id (digitalIds st))"
  shows "queueTokenMinting w i st =
           Inr (st\<lparr> digitalIds :=
                      map (\<lambda>d. if udi_id d = i then d\<lparr> udi_status := MINT_PENDING \<rparr> else d) (digitalIds st),
                    trace := trace st @ [StatusWrite i MINT_PENDING, EnvRead] \<rparr>)"
  using assms by (simp add: queueTokenMinting_def uniqueDigitalId_update_def log_effect_def Let_def)

text \<open>
  Without the minter private key the row stays at \<open>MINT_PENDING\<close>.
\<close>

theorem C7_unconfigured_stays_pending_witness:
  "\<not> mintEnvPresent (w_env (world_of env_unconfigured chain_accepts_all))
   \<and> 0 \<in> set (map udi_id (digitalIds ex_sys_issued))
   \<and> queueTokenMinting (world_of env_unconfigured chain_accepts_all) 0 ex_sys_issued
       = Inr (ex_sys_issued\<lparr> digitalIds := [ex_row\<lparr> udi_status := MINT_PENDING \<rparr>],
                             trace := [StatusWrite 0 MINT_PENDING, EnvRead] \<rparr>)"
proof -
  have h1: "\<not> mintEnvPresent (w_env (world_of env_unconfigured chain_accepts_all))" by code_simp
  have h2: "0 \<in> set (map udi_id (digitalIds ex_sys_issued))" by code_simp
  have r: "digitalIds ex_sys_issued = [ex_row]" "trace ex_sys_issued = []" "udi_id ex_row = 0"
    by (simp_all add: ex_sys_issued_def ex_sys_def ex_row_def)
  show ?thesis
    using h1 h2 C7_unconfigured_stays_pending [OF h1 h2] by (simp add: r)
qed

lemma findUnique_id:
  "uniqueDigitalId_findUnique i st = Some d \<Longrightarrow> i \<in> set (map udi_id (digitalIds st))"
  by (auto simp: uniqueDigitalId_findUnique_def find_Some_iff)

lemma findUnique_log [simp]:
  "uniqueDigitalId_findUnique i (log_effect e st) = uniqueDigitalId_findUnique i st"
  by (simp add: uniqueDigitalId_findUnique_def log_effect_def)

lemma resolveContractAddress_log [simp]:
  "resolveContractAddress en (log_effect e st) d = resolveContractAddress en st d"
  by (simp add: resolveContractAddress_def log_effect_def)

text \<open>
  When the client, account or contract handle cannot be built, no method is called and
  the row goes to \<open>MINT_FAILED\<close> with the message of that error.
\<close>

lemma mint_getContract_throws:
  assumes "ensureEnv (w_env w) = Inr (clientId, privateKey, appBaseUrl)"
      and "uniqueDigitalId_findUnique i st = Some d"
      and "js_or (udi_privyWalletAddress d) None = Some recipient"
      and "resolveContractAddress (w_env w) st d = Some contract"
      and "w_getContract w clientId privateKey contract = Some msg"
  shows "mintDigitalIdOnBase w i st =
           (MintFailure msg,
            st\<lparr> digitalIds :=
                  map (\<lambda>r. if udi_id r = i then r\<lparr> udi_status := MINT_FAILED \<rparr> else r)
                    (digitalIds st),
                trace := trace st @ [EnvRead, StatusWrite i MINT_FAILED] \<rparr>)"
proof -
  have i: "i \<in> set (map udi_id (digitalIds st))" using assms(2) by (rule findUnique_id)
  have "mintDigitalIdOnBase w i st = mint_catch i msg (log_effect EnvRead st)"
    using assms by (simp add: mintDigitalIdOnBase_def Let_def)
  then show ?thesis
    using i by (simp add: mint_catch_def uniqueDigitalId_update_def log_effect_def)
qed

text \<open>
  C6. For a configured environment and a stored digital identity with a recipient wallet
  and a contract address for which the contract handle can be built,
  \<open>mintDigitalIdOnBase\<close> calls \<open>mintTo\<close> first and \<open>safeMint\<close> only when
  \<open>mintTo\<close> threw, both with the same contract, recipient and metadata URL. The first
  call that returns wins: its transaction hash is stored, with the chain name, the
  contract address and the time, at status \<open>MINTED\<close>, and no later method is called.
  When both throw, the result carries the message of the last error and the row goes to
  \<open>MINT_FAILED\<close> with no hash written.
\<close>

theorem C6_mint_method_fallback:
  assumes "ensureEnv (w_env w) = Inr (clientId, privateKey, appBaseUrl)"
      and "uniqueDigitalId_findUnique i st = Some d"
      and "js_or (udi_privyWalletAddress d) None = Some recipient"
      and "resolveContractAddress (w_env w) st d = Some contract"
      and "w_getContract w clientId privateKey contract = None"
  shows "mintDigitalIdOnBase w i st =
     (let url = metadataUrl appBaseUrl i;
          mintTo = ''function mintTo(address to, string uri) returns (uint256 tokenId)'';
          safeMint = ''function safeMint(address to, string uri)'';
          minted = (\<lambda>tx calls.
             st\<lparr> digitalIds :=
                   map (\<lambda>r. if udi_id r = i
                             then r\<lparr> udi_blockchain := Some (getBlockchainName (w_env w)),
                                    udi_transactionHash := Some tx,
                                    udi_contractAddress := Some contract,
                                    udi_mintedAt := Some (w_now w),
                                    udi_status := MINTED \<rparr>
                             else r)
                     (digitalIds st),
                 trace := trace st @ EnvRead # calls @ [StatusWrite i MINTED] \<rparr>)
      in case w_chain w mintTo contract recipient url of
           Inr tx \<Rightarrow> (MintSuccess tx, minted tx [ChainCall mintTo contract recipient url])
         | Inl e1 \<Rightarrow>
             (case w_chain w safeMint contract recipient url of
                Inr tx \<Rightarrow>
                  (MintSuccess tx,
                   minted tx [ChainCall mintTo contract recipient url,
                              ChainCall safeMint contract recipient url])
              | Inl e2 \<Rightarrow>
                  (MintFailure (''Mint transaction failed: '' @ e2),
                   st\<lparr> digitalIds :=
                         map (\<lambda>r. if udi_id r = i then r\<lparr> udi_status := MINT_FAILED \<rparr> else r)
                           (digitalIds st),
                       trace := trace st @ [EnvRead, ChainCall mintTo contract recipient url,
                                            ChainCall safeMint contract recipient url,
                                            StatusWrite i MINT_FAILED] \<rparr>)))"
proof -
  let ?url = "metadataUrl appBaseUrl i"
  let ?mintTo = "''function mintTo(address to, string uri) returns (uint256 tokenId)''"
  let ?safeMint = "''function safeMint(address to, string uri)''"
  have i: "i \<in> set (map udi_id (digitalIds st))" using assms(2) by (rule findUnique_id)
  have body: "mintDigitalIdOnBase w i st =
     (case tryMintMethods w contract recipient ?url mintMethods (None, None, log_effect EnvRead st) of
        (None, lastError, st1) \<Rightarrow>
          mint_catch i (''Mint transaction failed: ''
                        @ (case lastError of None \<Rightarrow> ''undefined'' | Some err \<Rightarrow> err)) st1
      | (Some transactionHash, lastError, st1) \<Rightarrow>
          (case uniqueDigitalId_update i MINTED (mintedData w contract transactionHash) st1 of
             Inl e \<Rightarrow> mint_catch i ''Record to update not found.'' st1
           | Inr st2 \<Rightarrow> (MintSuccess transactionHash, st2)))"
    using assms by (simp add: mintDigitalIdOnBase_def Let_def)
  show ?thesis
  proof (cases "w_chain w ?mintTo contract recipient ?url")
    case (Inr tx)
    then show ?thesis
      using i
      by (simp add: body mintMethods_def Let_def uniqueDigitalId_update_def log_effect_def
            mintedData_def)
  next
    case first: (Inl e1)
    show ?thesis
    proof (cases "w_chain w ?safeMint contract recipient ?url")
      case (Inr tx)
      then show ?thesis
        using i first
        by (simp add: body mintMethods_def Let_def uniqueDigitalId_update_def log_effect_def
              mintedData_def)
    next
      case (Inl e2)
      then show ?thesis
        using i first
        by (simp add: body mintMethods_def Let_def uniqueDigitalId_update_def log_effect_def
              mint_catch_def)
    qed
  qed
qed

text \<open>
  The fallback scenario, with a well-formed contract and recipient address:
  \<open>mintTo\<close> reverts, \<open>safeMint\<close> returns, and only the second hash is stored.
\<close>

theorem C6_mint_method_fallback_witness:
  "ensureEnv (w_env (world_of env_configured chain_only_safeMint))
     = Inr (''client-1'', ''0x0123456789abcdef0123456789abcdef0123456789abcdef0123456789abcdef'',
            ''https://app.example/'')
   \<and> uniqueDigitalId_findUnique 0 ex_sys_issued = Some ex_row
   \<and> js_or (udi_privyWalletAddress ex_row) None = Some ''0x00000000000000000000000000000000000000a1''
   \<and> resolveContractAddress (w_env (world_of env_configured chain_only_safeMint)) ex_sys_issued ex_row
       = Some ''0x00000000000000000000000000000000000000c0''
   \<and> w_getContract (world_of env_configured chain_only_safeMint) ''client-1''
         ''0x0123456789abcdef0123456789abcdef0123456789abcdef0123456789abcdef''
         ''0x00000000000000000000000000000000000000c0'' = None
   \<and> fst (mintDigitalIdOnBase (world_of env_configured chain_only_safeMint) 0 ex_sys_issued)
       = MintSuccess ''0xbb02''
   \<and> map udi_status (digitalIds (snd (mintDigitalIdOnBase
         (world_of env_configured chain_only_safeMint) 0 ex_sys_issued))) = [MINTED]
   \<and> map udi_transactionHash (digitalIds (snd (mintDigitalIdOnBase
         (world_of env_configured chain_only_safeMint) 0 ex_sys_issued))) = [Some ''0xbb02'']
   \<and> trace (snd (mintDigitalIdOnBase (world_of env_configured chain_only_safeMint) 0 ex_sys_issued))
       = [EnvRead,
          ChainCall ''function mintTo(address to, string uri) returns (uint256 tokenId)''
            ''0x00000000000000000000000000000000000000c0''
            ''0x00000000000000000000000000000000000000a1''
            ''https://app.example/api/token-metadata/0'',
          ChainCall ''function safeMint(address to, string uri)''
            ''0x00000000000000000000000000000000000000c0''
            ''0x00000000000000000000000000000000000000a1''
            ''https://app.example/api/token-metadata/0'',
          StatusWrite 0 MINTED]"
proof -
  let ?w = "world_of env_configured chain_only_safeMint"
  let ?c = "''0x00000000000000000000000000000000000000c0''"
  let ?r = "''0x00000000000000000000000000000000000000a1''"
  have h1: "ensureEnv (w_env ?w)
     = Inr (''client-1'', ''0x0123456789abcdef0123456789abcdef0123456789abcdef0123456789abcdef'',
            ''https://app.example/'')"
    by code_simp
  have h2: "uniqueDigitalId_findUnique 0 ex_sys_issued = Some ex_row" by code_simp
  have h3: "js_or (udi_privyWalletAddress ex_row) None = Some ?r" by code_simp
  have h4: "resolveContractAddress (w_env ?w) ex_sys_issued ex_row = Some ?c" by code_simp
  have h5: "w_getContract ?w ''client-1''
         ''0x0123456789abcdef0123456789abcdef0123456789abcdef0123456789abcdef'' ?c = None"
    by code_simp
  have u: "metadataUrl ''https://app.example/'' 0 = ''https://app.example/api/token-metadata/0''"
    by code_simp
  have c1: "w_chain ?w ''function mintTo(address to, string uri) returns (uint256 tokenId)''
              ?c ?r ''https://app.example/api/token-metadata/0'' = Inl ''execution reverted''"
    by (simp add: world_of_def chain_only_safeMint_def)
  have c2: "w_chain ?w ''function safeMint(address to, string uri)''
              ?c ?r ''https://app.example/api/token-metadata/0'' = Inr ''0xbb02''"
    by (simp add: world_of_def chain_only_safeMint_def)
  have r: "digitalIds ex_sys_issued = [ex_row]" "trace ex_sys_issued = []" "udi_id ex_row = 0"
    by (simp_all add: ex_sys_issued_def ex_sys_def ex_row_def)
  show ?thesis
    using h1 h2 h3 h4 h5 C6_mint_method_fallback [OF h1 h2 h3 h4 h5]
    by (simp add: Let_def u c1 c2 r)
qed

section \<open>Issuance: the unit loop and the line-item loop\<close>

lemma create_stored:
  "udi_shopifyLineItemId d \<in> set (keysOf st) \<Longrightarrow> uniqueDigitalId_create d st = Inl UniqueConstraintViolation"
  by (simp add: uniqueDigitalId_create_def keysOf_def)

lemma create_fresh:
  "udi_shopifyLineItemId d \<notin> set (keysOf st) \<Longrightarrow>
     uniqueDigitalId_create d st
       = Inr (d\<lparr> udi_id := length (digitalIds st) \<rparr>,
              st\<lparr> digitalIds := digitalIds st @ [d\<lparr> udi_id := length (digitalIds st) \<rparr>] \<rparr>)"
  by (simp add: uniqueDigitalId_create_def keysOf_def Let_def)

lemma newDigitalId_key [simp]: "udi_shopifyLineItemId (newDigitalId w a cv li i) = uniqueLineItemId li i"
  by (simp add: newDigitalId_def)

lemma newDigitalId_status [simp]: "udi_status (newDigitalId w a cv li i) = CREATED"
  by (simp add: newDigitalId_def)

lemma issueUnits_stored:
  "uniqueLineItemId li i \<in> set (keysOf st) \<Longrightarrow>
     issueUnits w a cv li (i # rest) (r, st) = (Some UniqueConstraintViolation, r, st)"
  by (simp add: create_stored)

lemma issueUnits_fresh:
  assumes "uniqueLineItemId li i \<notin> set (keysOf st)"
  shows "\<exists>st2. issueUnits w a cv li (i # rest) (r, st)
                 = issueUnits w a cv li rest
                     (r\<lparr> created := created r + 1,
                        r_digitalIds := r_digitalIds r
                          @ [(newDigitalId w a cv li i)\<lparr> udi_id := length (digitalIds st) \<rparr>] \<rparr>, st2)
             \<and> keysOf st2 = keysOf st @ [uniqueLineItemId li i]
             \<and> length (digitalIds st2) = Suc (length (digitalIds st))
             \<and> variants st2 = variants st \<and> orders st2 = orders st"
proof -
  let ?d = "(newDigitalId w a cv li i)\<lparr> udi_id := length (digitalIds st) \<rparr>"
  let ?st1 = "st\<lparr> digitalIds := digitalIds st @ [?d] \<rparr>"
  have c: "uniqueDigitalId_create (newDigitalId w a cv li i) st = Inr (?d, ?st1)"
    using assms by (simp add: create_fresh)
  have "udi_id ?d \<in> set (map udi_id (digitalIds ?st1))" by simp
  then obtain st2 where q: "queueTokenMinting w (udi_id ?d) ?st1 = Inr st2" and s: "same_rows ?st1 st2"
    using queueTokenMinting_ok by blast
  have k: "keysOf st2 = keysOf st @ [uniqueLineItemId li i]"
    using s by (simp add: same_rows_def keysOf_def)
  have "length (map udi_id (digitalIds st2)) = length (map udi_id (digitalIds ?st1))"
    using s by (simp add: same_rows_def)
  then have l: "length (digitalIds st2) = Suc (length (digitalIds st))" by simp
  have v: "variants st2 = variants st" "orders st2 = orders st"
    using s by (simp_all add: same_rows_def)
  have "issueUnits w a cv li (i # rest) (r, st)
          = issueUnits w a cv li rest
              (r\<lparr> created := created r + 1, r_digitalIds := r_digitalIds r @ [?d] \<rparr>, st2)"
    using c q by simp
  then show ?thesis using k l v by blast
qed

text \<open>What a run of the inner loop leaves, whatever the world.\<close>

lemma issueUnits_effect:
  "issueUnits w a cv li units (r, st) = (e, r', st') \<Longrightarrow>
     (\<exists>new. keysOf st' = keysOf st @ new \<and> (distinct (keysOf st) \<longrightarrow> distinct (keysOf st'))
            \<and> int (length (digitalIds st')) = int (length (digitalIds st)) + int (length new)
            \<and> created r' = created r + int (length new)
            \<and> length (r_digitalIds r') = length (r_digitalIds r) + length new)
     \<and> failed r' = failed r \<and> variants st' = variants st \<and> orders st' = orders st"
proof (induction units arbitrary: r st)
  case Nil
  then show ?case by simp
next
  case (Cons i rest)
  show ?case
  proof (cases "uniqueLineItemId li i \<in> set (keysOf st)")
    case True
    then have "issueUnits w a cv li (i # rest) (r, st) = (Some UniqueConstraintViolation, r, st)"
      by (rule issueUnits_stored)
    with Cons.prems have "r' = r \<and> st' = st" by (simp del: issueUnits.simps)
    then show ?thesis by simp
  next
    case False
    let ?r1 = "r\<lparr> created := created r + 1,
                   r_digitalIds := r_digitalIds r
                     @ [(newDigitalId w a cv li i)\<lparr> udi_id := length (digitalIds st) \<rparr>] \<rparr>"
    from issueUnits_fresh[OF False, of w a cv rest r] obtain st2 where
      step: "issueUnits w a cv li (i # rest) (r, st) = issueUnits w a cv li rest (?r1, st2)"
      and k: "keysOf st2 = keysOf st @ [uniqueLineItemId li i]"
      and l: "length (digitalIds st2) = Suc (length (digitalIds st))"
      and v: "variants st2 = variants st" "orders st2 = orders st"
      by blast
    from step Cons.prems have "issueUnits w a cv li rest (?r1, st2) = (e, r', st')"
      by (simp del: issueUnits.simps)
    from Cons.IH[OF this] obtain new where
      n: "keysOf st' = keysOf st2 @ new" "distinct (keysOf st2) \<longrightarrow> distinct (keysOf st')"
         "int (length (digitalIds st')) = int (length (digitalIds st2)) + int (length new)"
         "created r' = created ?r1 + int (length new)"
         "length (r_digitalIds r') = length (r_digitalIds ?r1) + length new"
      and o: "failed r' = failed ?r1" "variants st' = variants st2" "orders st' = orders st2"
      by blast
    have d: "distinct (keysOf st) \<longrightarrow> distinct (keysOf st')"
      using n(2) k False by simp
    have "keysOf st' = keysOf st @ (uniqueLineItemId li i # new)" using n(1) k by simp
    moreover have "int (length (digitalIds st')) = int (length (digitalIds st)) + int (length (uniqueLineItemId li i # new))"
      using n(3) l by simp
    moreover have "created r' = created r + int (length (uniqueLineItemId li i # new))"
      using n(4) by simp
    moreover have "length (r_digitalIds r') = length (r_digitalIds r) + length (uniqueLineItemId li i # new)"
      using n(5) by simp
    ultimately show ?thesis using d o v by (intro conjI exI[of _ "uniqueLineItemId li i # new"]) simp_all
  qed
qed

lemma grows_refl: "grows acc acc"
  by (cases acc) (simp add: grows_def)

lemma grows_failed: "grows (r, st) (r\<lparr> failed := f \<rparr>, st)"
  by (simp add: grows_def)

lemma grows_trans: "grows a b \<Longrightarrow> grows b c \<Longrightarrow> grows a c"
proof -
  assume ab: "grows a b" and bc: "grows b c"
  obtain r st where a: "a = (r, st)" by (cases a)
  obtain r1 st1 where b: "b = (r1, st1)" by (cases b)
  obtain r2 st2 where c: "c = (r2, st2)" by (cases c)
  from ab a b obtain n1 where
    1: "keysOf st1 = keysOf st @ n1" "distinct (keysOf st) \<longrightarrow> distinct (keysOf st1)"
       "int (length (digitalIds st1)) = int (length (digitalIds st)) + int (length n1)"
       "created r1 = created r + int (length n1)"
       "length (r_digitalIds r1) = length (r_digitalIds r) + length n1"
       "variants st1 = variants st" "orders st1 = orders st"
    by (auto simp: grows_def)
  from bc b c obtain n2 where
    2: "keysOf st2 = keysOf st1 @ n2" "distinct (keysOf st1) \<longrightarrow> distinct (keysOf st2)"
       "int (length (digitalIds st2)) = int (length (digitalIds st1)) + int (length n2)"
       "created r2 = created r1 + int (length n2)"
       "length (r_digitalIds r2) = length (r_digitalIds r1) + length n2"
       "variants st2 = variants st1" "orders st2 = orders st1"
    by (auto simp: grows_def)
  have "keysOf st2 = keysOf st @ (n1 @ n2)" using 1(1) 2(1) by simp
  moreover have "distinct (keysOf st) \<longrightarrow> distinct (keysOf st2)" using 1(2) 2(2) by blast
  moreover have "int (length (digitalIds st2)) = int (length (digitalIds st)) + int (length (n1 @ n2))"
    using 1(3) 2(3) by simp
  moreover have "created r2 = created r + int (length (n1 @ n2))" using 1(4) 2(4) by simp
  moreover have "length (r_digitalIds r2) = length (r_digitalIds r) + length (n1 @ n2)"
    using 1(5) 2(5) by simp
  ultimately show ?thesis
    unfolding a c grows_def using 1(6,7) 2(6,7)
    by (simp only: prod.case) (intro conjI exI[of _ "n1 @ n2"]; simp)
qed

lemma issueUnits_grows:
  "issueUnits w a cv li units (r, st) = (e, r', st') \<Longrightarrow> grows (r, st) (r', st') \<and> failed r' = failed r"
  using issueUnits_effect[of w a cv li units r st e r' st'] by (simp add: grows_def)

lemma issueLineItem_grows: "grows acc (issueLineItem w a li acc)"
proof -
  obtain r st where acc: "acc = (r, st)" by (cases acc)
  show ?thesis
  proof (cases "resolvableVariant a li st")
    case False
    then show ?thesis
      unfolding acc
      by (auto simp: issueLineItem_def resolvableVariant_def grows_refl grows_failed split: option.splits)
  next
    case True
    then obtain cv where cv: "coreProductVariant_findFirst (shopifyVariantGid li) (a_shopId a) st = Some cv"
        "truthy (cpv_brand_3fa_id cv)" "variantId_present li"
      by (auto simp: resolvableVariant_def split: option.splits)
    obtain e r' st' where u: "issueUnits w a cv li [0 ..< nat (li_quantity li)] (r, st) = (e, r', st')"
      by (metis prod_cases3)
    then have g: "grows (r, st) (r', st')" using issueUnits_grows by blast
    have "grows (r', st') (r'\<lparr> failed := failed r' + li_quantity li \<rparr>, st')" by (rule grows_failed)
    with g have g2: "grows (r, st) (r'\<lparr> failed := failed r' + li_quantity li \<rparr>, st')"
      by (rule grows_trans)
    show ?thesis
      unfolding acc using cv u g g2 by (cases e) (simp_all add: issueLineItem_def)
  qed
qed

lemma issueLineItems_Cons:
  "issueLineItems w a (li # rest) acc = issueLineItems w a rest (issueLineItem w a li acc)"
  by (simp add: issueLineItems_def)

lemma issueLineItems_Nil: "issueLineItems w a [] acc = acc"
  by (simp add: issueLineItems_def)

lemma issueLineItems_append:
  "issueLineItems w a (xs @ ys) acc = issueLineItems w a ys (issueLineItems w a xs acc)"
  by (simp add: issueLineItems_def)

lemma issueLineItems_grows: "grows acc (issueLineItems w a items acc)"
proof (induction items arbitrary: acc)
  case Nil
  show ?case by (simp add: issueLineItems_Nil grows_refl)
next
  case (Cons li rest)
  show ?case
    unfolding issueLineItems_Cons
    using issueLineItem_grows Cons.IH grows_trans by blast
qed

lemma resolvableVariant_variants:
  "variants st' = variants st \<Longrightarrow> resolvableVariant a li st' = resolvableVariant a li st"
  by (simp add: resolvableVariant_def coreProductVariant_findFirst_def)

lemma grows_keys: "grows (r, st) (r', st') \<Longrightarrow> set (keysOf st) \<subseteq> set (keysOf st')"
  by (auto simp: grows_def)

lemma grows_variants: "grows (r, st) (r', st') \<Longrightarrow> variants st' = variants st"
  by (auto simp: grows_def)

lemma units_from_zero: "1 \<le> q \<Longrightarrow> [0 ..< nat q] = 0 # [1 ..< nat q]"
  by (simp add: upt_conv_Cons)

lemma issueLineItem_attempted:
  assumes "resolvableVariant a li st" and "1 \<le> li_quantity li"
      and "issueLineItem w a li (r, st) = (r', st')"
  shows "uniqueLineItemId li 0 \<in> set (keysOf st')"
proof (cases "uniqueLineItemId li 0 \<in> set (keysOf st)")
  case True
  have "grows (r, st) (r', st')" using issueLineItem_grows[of "(r, st)" w a li] assms(3) by simp
  then show ?thesis using True grows_keys by blast
next
  case False
  from assms(1) obtain cv where
    cv: "coreProductVariant_findFirst (shopifyVariantGid li) (a_shopId a) st = Some cv"
        "truthy (cpv_brand_3fa_id cv)" "variantId_present li"
    by (auto simp: resolvableVariant_def split: option.splits)
  let ?r1 = "r\<lparr> created := created r + 1,
                 r_digitalIds := r_digitalIds r
                   @ [(newDigitalId w a cv li 0)\<lparr> udi_id := length (digitalIds st) \<rparr>] \<rparr>"
  from issueUnits_fresh[OF False, of w a cv "[1 ..< nat (li_quantity li)]" r] obtain st2 where
    step: "issueUnits w a cv li (0 # [1 ..< nat (li_quantity li)]) (r, st)
             = issueUnits w a cv li [1 ..< nat (li_quantity li)] (?r1, st2)"
    and k: "keysOf st2 = keysOf st @ [uniqueLineItemId li 0]"
    by blast
  obtain e r2 st3 where u: "issueUnits w a cv li [1 ..< nat (li_quantity li)] (?r1, st2) = (e, r2, st3)"
    by (metis prod_cases3)
  then have "grows (?r1, st2) (r2, st3)" using issueUnits_grows by blast
  then have sub: "set (keysOf st2) \<subseteq> set (keysOf st3)" by (rule grows_keys)
  have "issueUnits w a cv li [0 ..< nat (li_quantity li)] (r, st) = (e, r2, st3)"
    using step u units_from_zero[OF assms(2)] by (simp del: issueUnits.simps)
  then have "st' = st3" using assms(3) cv by (cases e) (auto simp: issueLineItem_def)
  then show ?thesis using sub k by auto
qed

lemma issueLineItem_replay:
  assumes "resolvableVariant a li st \<and> 1 \<le> li_quantity li \<longrightarrow> uniqueLineItemId li 0 \<in> set (keysOf st)"
  shows "\<exists>f. issueLineItem w a li (r, st) = (r\<lparr> failed := f \<rparr>, st)"
proof (cases "resolvableVariant a li st")
  case False
  have id: "r = r\<lparr> failed := failed r \<rparr>" by simp
  show ?thesis
  proof (cases "variantId_present li")
    case False
    then have "issueLineItem w a li (r, st) = (r\<lparr> failed := failed r \<rparr>, st)"
      by (simp add: issueLineItem_def)
    then show ?thesis by blast
  next
    case True
    with \<open>\<not> resolvableVariant a li st\<close>
    have "issueLineItem w a li (r, st) = (r\<lparr> failed := failed r + li_quantity li \<rparr>, st)"
      by (auto simp: issueLineItem_def resolvableVariant_def split: option.splits)
    then show ?thesis by blast
  qed
next
  case True
  then obtain cv where
    cv: "coreProductVariant_findFirst (shopifyVariantGid li) (a_shopId a) st = Some cv"
        "truthy (cpv_brand_3fa_id cv)" "variantId_present li"
    by (auto simp: resolvableVariant_def split: option.splits)
  show ?thesis
  proof (cases "1 \<le> li_quantity li")
    case False
    then have "[0 ..< nat (li_quantity li)] = []" by simp
    then have "issueLineItem w a li (r, st) = (r\<lparr> failed := failed r \<rparr>, st)"
      using cv by (simp add: issueLineItem_def)
    then show ?thesis by blast
  next
    case q: True
    with True assms have "uniqueLineItemId li 0 \<in> set (keysOf st)" by blast
    then have "issueUnits w a cv li (0 # [1 ..< nat (li_quantity li)]) (r, st)
                 = (Some UniqueConstraintViolation, r, st)"
      by (rule issueUnits_stored)
    then have "issueUnits w a cv li [0 ..< nat (li_quantity li)] (r, st)
                 = (Some UniqueConstraintViolation, r, st)"
      using units_from_zero[OF q] by (simp del: issueUnits.simps)
    then have "issueLineItem w a li (r, st) = (r\<lparr> failed := failed r + li_quantity li \<rparr>, st)"
      using cv by (simp add: issueLineItem_def)
    then show ?thesis by blast
  qed
qed

lemma issueLineItems_attempted:
  "issueLineItems w a items (r, st) = (r', st') \<Longrightarrow> li \<in> set items \<Longrightarrow>
     resolvableVariant a li st \<Longrightarrow> 1 \<le> li_quantity li \<Longrightarrow> uniqueLineItemId li 0 \<in> set (keysOf st')"
proof (induction items arbitrary: r st)
  case Nil
  then show ?case by simp
next
  case (Cons x rest)
  obtain r1 st1 where x: "issueLineItem w a x (r, st) = (r1, st1)" by (cases "issueLineItem w a x (r, st)")
  have g1: "grows (r, st) (r1, st1)" using issueLineItem_grows[of "(r, st)" w a x] x by simp
  have rest: "issueLineItems w a rest (r1, st1) = (r', st')"
    using Cons.prems(1) x by (simp add: issueLineItems_Cons)
  have g2: "grows (r1, st1) (r', st')" using issueLineItems_grows[of "(r1, st1)" w a rest] rest by simp
  show ?case
  proof (cases "li = x")
    case True
    then have "uniqueLineItemId li 0 \<in> set (keysOf st1)"
      using issueLineItem_attempted Cons.prems(3,4) x by blast
    then show ?thesis using g2 grows_keys by blast
  next
    case False
    then have "li \<in> set rest" using Cons.prems(2) by simp
    moreover have "resolvableVariant a li st1"
      using Cons.prems(3) resolvableVariant_variants[OF grows_variants[OF g1]] by simp
    ultimately show ?thesis using Cons.IH[OF rest] Cons.prems(4) by blast
  qed
qed

lemma issueLineItems_replay:
  "(\<And>li. li \<in> set items \<Longrightarrow> resolvableVariant a li st \<Longrightarrow> 1 \<le> li_quantity li
        \<Longrightarrow> uniqueLineItemId li 0 \<in> set (keysOf st))
   \<Longrightarrow> \<exists>f. issueLineItems w a items (r, st) = (r\<lparr> failed := f \<rparr>, st)"
proof (induction items arbitrary: r)
  case Nil
  have "issueLineItems w a [] (r, st) = (r\<lparr> failed := failed r \<rparr>, st)"
    by (simp add: issueLineItems_Nil)
  then show ?case by blast
next
  case (Cons x rest)
  have "resolvableVariant a x st \<and> 1 \<le> li_quantity x \<longrightarrow> uniqueLineItemId x 0 \<in> set (keysOf st)"
    using Cons.prems by simp
  then obtain f where x: "issueLineItem w a x (r, st) = (r\<lparr> failed := f \<rparr>, st)"
    using issueLineItem_replay by blast
  have "\<exists>f'. issueLineItems w a rest (r\<lparr> failed := f \<rparr>, st) = (r\<lparr> failed := f \<rparr>\<lparr> failed := f' \<rparr>, st)"
    using Cons.IH[of "r\<lparr> failed := f \<rparr>"] Cons.prems by simp
  then obtain f' where "issueLineItems w a rest (r\<lparr> failed := f \<rparr>, st) = (r\<lparr> failed := f' \<rparr>, st)"
    by auto
  then have "issueLineItems w a (x # rest) (r, st) = (r\<lparr> failed := f' \<rparr>, st)"
    using x by (simp add: issueLineItems_Cons)
  then show ?case by blast
qed

text \<open>
  C2. Calling \<open>createDigitalIdsForOrder\<close> a second time with the same arguments
  (in any world) leaves the store exactly as the first call left it: no row is added or
  changed, the second call issues no record, and uniqueness keys that were distinct
  before the first call are distinct after it. The insert relies on the unique constraint
  on \<open>shopifyLineItemId\<close>: for every line item that is attempted, the key of its first
  unit is stored after the first call, so the second call's insert throws and the line
  item is left alone.
\<close>

theorem C2_issuance_replay:
  "snd (createDigitalIdsForOrder w2 a items (snd (createDigitalIdsForOrder w1 a items st)))
     = snd (createDigitalIdsForOrder w1 a items st)
   \<and> created (fst (createDigitalIdsForOrder w2 a items (snd (createDigitalIdsForOrder w1 a items st)))) = 0
   \<and> r_digitalIds (fst (createDigitalIdsForOrder w2 a items (snd (createDigitalIdsForOrder w1 a items st)))) = []
   \<and> (distinct (keysOf st) \<longrightarrow> distinct (keysOf (snd (createDigitalIdsForOrder w1 a items st))))"
proof -
  let ?r0 = "\<lparr> created = 0, failed = 0, r_digitalIds = [] \<rparr>"
  obtain r1 st1 where first: "issueLineItems w1 a items (?r0, st) = (r1, st1)"
    by (cases "issueLineItems w1 a items (?r0, st)")
  have g: "grows (?r0, st) (r1, st1)" using issueLineItems_grows[of "(?r0, st)" w1 a items] first by simp
  have stored: "\<And>li. li \<in> set items \<Longrightarrow> resolvableVariant a li st1 \<Longrightarrow> 1 \<le> li_quantity li
                  \<Longrightarrow> uniqueLineItemId li 0 \<in> set (keysOf st1)"
    using issueLineItems_attempted[OF first] resolvableVariant_variants[OF grows_variants[OF g]] by blast
  obtain f where second: "issueLineItems w2 a items (?r0, st1) = (?r0\<lparr> failed := f \<rparr>, st1)"
    using issueLineItems_replay[of items a st1 w2 ?r0] stored by blast
  have d: "distinct (keysOf st) \<longrightarrow> distinct (keysOf st1)" using g by (auto simp: grows_def)
  show ?thesis using first second d by (simp add: createDigitalIdsForOrder_def)
qed

text \<open>
  A first call that issues four records, and its replay.
\<close>

theorem C2_issuance_replay_witness:
  "distinct (keysOf ex_sys)
   \<and> created (fst (createDigitalIdsForOrder (world_of env_configured chain_only_safeMint) ex_args
                     [li_three, li_one] ex_sys)) = 4
   \<and> snd (createDigitalIdsForOrder (world_of env_unconfigured chain_accepts_all) ex_args [li_three, li_one]
           (snd (createDigitalIdsForOrder (world_of env_configured chain_only_safeMint) ex_args
                   [li_three, li_one] ex_sys)))
       = snd (createDigitalIdsForOrder (world_of env_configured chain_only_safeMint) ex_args
                [li_three, li_one] ex_sys)
   \<and> created (fst (createDigitalIdsForOrder (world_of env_unconfigured chain_accepts_all) ex_args
                     [li_three, li_one]
                     (snd (createDigitalIdsForOrder (world_of env_configured chain_only_safeMint) ex_args
                             [li_three, li_one] ex_sys)))) = 0
   \<and> distinct (keysOf (snd (createDigitalIdsForOrder (world_of env_configured chain_only_safeMint)
                               ex_args [li_three, li_one] ex_sys)))"
proof -
  have h: "distinct (keysOf ex_sys)" by code_simp
  have c: "created (fst (createDigitalIdsForOrder (world_of env_configured chain_only_safeMint) ex_args
                     [li_three, li_one] ex_sys)) = 4" by code_simp
  show ?thesis
    using h c
      C2_issuance_replay [of "world_of env_unconfigured chain_accepts_all" ex_args "[li_three, li_one]"
                             "world_of env_configured chain_only_safeMint" ex_sys]
    by simp
qed

lemma issueLineItem_unresolvable:
  "\<not> resolvableVariant a li st \<Longrightarrow>
     issueLineItem w a li (r, st)
       = (if variantId_present li then r\<lparr> failed := failed r + li_quantity li \<rparr> else r, st)"
  by (auto simp: issueLineItem_def resolvableVariant_def split: option.splits)

text \<open>
  C4 (as amended). A line item whose product variant does not resolve is skipped and the
  batch goes on with the line items after it: the store is left as the items before it
  left it and no record is created for it. Its quantity is added to the failed count when
  the variant record is not found or lacks the brand linkage; a line item with no variant
  reference at all is skipped without changing the failed count.
\<close>

theorem C4_unresolvable_variant_skipped:
  assumes "\<not> resolvableVariant a li st"
  shows "createDigitalIdsForOrder w a (pre @ li # post) st =
           (case createDigitalIdsForOrder w a pre st of
              (r1, st1) \<Rightarrow>
                issueLineItems w a post
                  (if variantId_present li then r1\<lparr> failed := failed r1 + li_quantity li \<rparr> else r1,
                   st1))"
proof -
  let ?acc = "(\<lparr> created = 0, failed = 0, r_digitalIds = [] \<rparr>, st)"
  obtain r1 st1 where pre: "issueLineItems w a pre ?acc = (r1, st1)"
    by (cases "issueLineItems w a pre ?acc")
  have "grows ?acc (r1, st1)" using issueLineItems_grows[of ?acc w a pre] pre by simp
  then have "variants st1 = variants st" by (rule grows_variants)
  then have "\<not> resolvableVariant a li st1" using assms resolvableVariant_variants by blast
  then show ?thesis
    by (simp add: createDigitalIdsForOrder_def issueLineItems_append issueLineItems_Cons pre
          issueLineItem_unresolvable)
qed

text \<open>
  A batch with an unknown variant in the middle: the items around it are issued, one unit failed.
\<close>

theorem C4_unresolvable_variant_skipped_witness:
  "\<not> resolvableVariant ex_args li_unknown_variant ex_sys
   \<and> createDigitalIdsForOrder (world_of env_unconfigured chain_accepts_all) ex_args
        ([li_one] @ li_unknown_variant # [li_three]) ex_sys
       = (case createDigitalIdsForOrder (world_of env_unconfigured chain_accepts_all) ex_args
                [li_one] ex_sys of
            (r1, st1) \<Rightarrow>
              issueLineItems (world_of env_unconfigured chain_accepts_all) ex_args [li_three]
                (if variantId_present li_unknown_variant
                 then r1\<lparr> failed := failed r1 + li_quantity li_unknown_variant \<rparr> else r1, st1))
   \<and> created (fst (createDigitalIdsForOrder (world_of env_unconfigured chain_accepts_all) ex_args
             ([li_one] @ li_unknown_variant # [li_three]) ex_sys)) = 4
   \<and> failed (fst (createDigitalIdsForOrder (world_of env_unconfigured chain_accepts_all) ex_args
             ([li_one] @ li_unknown_variant # [li_three]) ex_sys)) = 1"
proof -
  let ?w = "world_of env_unconfigured chain_accepts_all"
  have h: "\<not> resolvableVariant ex_args li_unknown_variant ex_sys" by code_simp
  have c: "created (fst (createDigitalIdsForOrder ?w ex_args
             ([li_one] @ li_unknown_variant # [li_three]) ex_sys)) = 4" by code_simp
  have f: "failed (fst (createDigitalIdsForOrder ?w ex_args
             ([li_one] @ li_unknown_variant # [li_three]) ex_sys)) = 1" by code_simp
  show ?thesis
    by (rule conjI[OF h conjI[OF
          C4_unresolvable_variant_skipped [OF h, of ?w "[li_one]" "[li_three]"] conjI[OF c f]]])
qed

text \<open>
  The claim as stated fails for a line item with no variant reference: its quantity 2 is
  not added to the failed count.
\<close>

theorem C4_no_variant_counterexample:
  "\<not> resolvableVariant ex_args li_no_variant ex_sys
   \<and> li_quantity li_no_variant = 2
   \<and> failed (fst (createDigitalIdsForOrder (world_of env_configured chain_accepts_all) ex_args
                    [li_no_variant] ex_sys)) = 0"
  by code_simp

section \<open>Issuance: quantity expansion\<close>
















section \<open>The order status after issuance\<close>

lemma issueUnits_rel:
  "keysOf st1 = keysOf st2 \<Longrightarrow> created r1 = created r2 \<Longrightarrow>
   issueUnits w1 a cv1 li units (r1, st1) = (e1, r1', st1') \<Longrightarrow>
   issueUnits w2 a cv2 li units (r2, st2) = (e2, r2', st2') \<Longrightarrow>
   (e1 = None \<longleftrightarrow> e2 = None) \<and> created r1' = created r2' \<and> keysOf st1' = keysOf st2'"
proof (induction units arbitrary: r1 st1 r2 st2)
  case Nil
  then show ?case by simp
next
  case (Cons i rest)
  show ?case
  proof (cases "uniqueLineItemId li i \<in> set (keysOf st1)")
    case True
    then have "issueUnits w1 a cv1 li (i # rest) (r1, st1) = (Some UniqueConstraintViolation, r1, st1)"
      by (rule issueUnits_stored)
    moreover from True Cons.prems(1)
    have "issueUnits w2 a cv2 li (i # rest) (r2, st2) = (Some UniqueConstraintViolation, r2, st2)"
      by (simp only: issueUnits_stored)
    ultimately show ?thesis using Cons.prems by (simp del: issueUnits.simps)
  next
    case False
    then have False2: "uniqueLineItemId li i \<notin> set (keysOf st2)" using Cons.prems(1) by simp
    let ?n1 = "r1\<lparr> created := created r1 + 1,
                   r_digitalIds := r_digitalIds r1
                     @ [(newDigitalId w1 a cv1 li i)\<lparr> udi_id := length (digitalIds st1) \<rparr>] \<rparr>"
    let ?n2 = "r2\<lparr> created := created r2 + 1,
                   r_digitalIds := r_digitalIds r2
                     @ [(newDigitalId w2 a cv2 li i)\<lparr> udi_id := length (digitalIds st2) \<rparr>] \<rparr>"
    from issueUnits_fresh[OF False, of w1 a cv1 rest r1] obtain s1 where
      s1: "issueUnits w1 a cv1 li (i # rest) (r1, st1) = issueUnits w1 a cv1 li rest (?n1, s1)"
          "keysOf s1 = keysOf st1 @ [uniqueLineItemId li i]"
      by blast
    from issueUnits_fresh[OF False2, of w2 a cv2 rest r2] obtain s2 where
      s2: "issueUnits w2 a cv2 li (i # rest) (r2, st2) = issueUnits w2 a cv2 li rest (?n2, s2)"
          "keysOf s2 = keysOf st2 @ [uniqueLineItemId li i]"
      by blast
    have k: "keysOf s1 = keysOf s2" using s1(2) s2(2) Cons.prems(1) by simp
    have c: "created ?n1 = created ?n2" using Cons.prems(2) by simp
    have u1: "issueUnits w1 a cv1 li rest (?n1, s1) = (e1, r1', st1')"
      using s1(1) Cons.prems(3) by (simp del: issueUnits.simps)
    have u2: "issueUnits w2 a cv2 li rest (?n2, s2) = (e2, r2', st2')"
      using s2(1) Cons.prems(4) by (simp del: issueUnits.simps)
    show ?thesis by (rule Cons.IH[OF k c u1 u2])
  qed
qed

lemma issueLineItem_rel:
  assumes "same_counts acc1 acc2"
  shows "same_counts (issueLineItem w1 a li acc1) (issueLineItem w2 a li acc2)"
proof -
  obtain r1 st1 where a1: "acc1 = (r1, st1)" by (cases acc1)
  obtain r2 st2 where a2: "acc2 = (r2, st2)" by (cases acc2)
  from assms a1 a2 have s: "created r1 = created r2" "failed r1 = failed r2"
      "keysOf st1 = keysOf st2" "variants st1 = variants st2"
    by (simp_all add: same_counts_def)
  have f: "coreProductVariant_findFirst g sh st1 = coreProductVariant_findFirst g sh st2" for g sh
    using s(4) by (simp add: coreProductVariant_findFirst_def)
  show ?thesis
  proof (cases "resolvableVariant a li st1")
    case False
    then have "\<not> resolvableVariant a li st2" using s(4) resolvableVariant_variants by blast
    with False show ?thesis
      unfolding a1 a2 using s by (simp add: issueLineItem_unresolvable same_counts_def)
  next
    case True
    then obtain cv where
      cv: "coreProductVariant_findFirst (shopifyVariantGid li) (a_shopId a) st1 = Some cv"
          "truthy (cpv_brand_3fa_id cv)" "variantId_present li"
      by (auto simp: resolvableVariant_def split: option.splits)
    have cv2: "coreProductVariant_findFirst (shopifyVariantGid li) (a_shopId a) st2 = Some cv"
      using cv(1) f by simp
    obtain e1 r1' st1' where u1: "issueUnits w1 a cv li [0 ..< nat (li_quantity li)] (r1, st1) = (e1, r1', st1')"
      by (metis prod_cases3)
    obtain e2 r2' st2' where u2: "issueUnits w2 a cv li [0 ..< nat (li_quantity li)] (r2, st2) = (e2, r2', st2')"
      by (metis prod_cases3)
    from issueUnits_rel[OF s(3) s(1) u1 u2]
    have r: "e1 = None \<longleftrightarrow> e2 = None" "created r1' = created r2'" "keysOf st1' = keysOf st2'"
      by simp_all
    have g1: "failed r1' = failed r1" "variants st1' = variants st1"
      using issueUnits_grows[OF u1] by (simp_all add: grows_def)
    have g2: "failed r2' = failed r2" "variants st2' = variants st2"
      using issueUnits_grows[OF u2] by (simp_all add: grows_def)
    show ?thesis
      unfolding a1 a2 using cv cv2 u1 u2 r g1 g2 s
      by (cases e1; cases e2) (simp_all add: issueLineItem_def same_counts_def)
  qed
qed

lemma issueLineItems_rel:
  "same_counts acc1 acc2 \<Longrightarrow> same_counts (issueLineItems w1 a items acc1) (issueLineItems w2 a items acc2)"
proof (induction items arbitrary: acc1 acc2)
  case Nil
  then show ?case by (simp add: issueLineItems_Nil)
next
  case (Cons li rest)
  show ?case
    unfolding issueLineItems_Cons
    by (rule Cons.IH) (rule issueLineItem_rel[OF Cons.prems])
qed

lemma createDigitalIdsForOrder_counts:
  "created (fst (createDigitalIdsForOrder w1 a items st)) = created (fst (createDigitalIdsForOrder w2 a items st))
   \<and> failed (fst (createDigitalIdsForOrder w1 a items st)) = failed (fst (createDigitalIdsForOrder w2 a items st))"
proof -
  let ?acc = "(\<lparr> created = 0, failed = 0, r_digitalIds = [] \<rparr>, st)"
  have "same_counts ?acc ?acc" by (simp add: same_counts_def)
  then have "same_counts (issueLineItems w1 a items ?acc) (issueLineItems w2 a items ?acc)"
    by (rule issueLineItems_rel)
  then show ?thesis by (simp add: same_counts_def createDigitalIdsForOrder_def)
qed

lemma createDigitalIdsForOrder_rows:
  "int (length (digitalIds (snd (createDigitalIdsForOrder w a items st))))
     = int (length (digitalIds st)) + created (fst (createDigitalIdsForOrder w a items st))
   \<and> orders (snd (createDigitalIdsForOrder w a items st)) = orders st"
proof -
  let ?acc = "(\<lparr> created = 0, failed = 0, r_digitalIds = [] \<rparr>, st)"
  obtain r' st' where x: "issueLineItems w a items ?acc = (r', st')"
    by (cases "issueLineItems w a items ?acc")
  have "grows ?acc (r', st')" using issueLineItems_grows[of ?acc w a items] x by simp
  then show ?thesis using x by (auto simp: grows_def createDigitalIdsForOrder_def)
qed




















text \<open>
  C10. The created and failed counts of \<open>createDigitalIdsForOrder\<close>, and with them
  the order status that step 6 writes, are the same in any two worlds (minting
  configuration, chain behaviour, module import, clock): the created count is the number
  of rows inserted, because the mint trigger never raises for a row that was just
  inserted. So there is a run that ends with the order \<open>COMPLETED\<close> and none of its
  digital identities \<open>MINTED\<close>.
\<close>

theorem C10_counts_independent_of_minting:
  "created (fst (createDigitalIdsForOrder w1 a items st))
     = created (fst (createDigitalIdsForOrder w2 a items st))
   \<and> failed (fst (createDigitalIdsForOrder w1 a items st))
     = failed (fst (createDigitalIdsForOrder w2 a items st))
   \<and> int (length (digitalIds (snd (createDigitalIdsForOrder w1 a items st))))
     = int (length (digitalIds st)) + created (fst (createDigitalIdsForOrder w1 a items st))
   \<and> map_sum id orders (createDigitalIdsStep (issueForJob w1 a items) user3fa orders3fa orderDbId st)
     = map_sum id orders (createDigitalIdsStep (issueForJob w2 a items) user3fa orders3fa orderDbId st)
   \<and> (\<exists>w' a' items' st' st''.
         createDigitalIdsStep (issueForJob w' a' items') (Some ''u-1'') (Some ''o-1'') (Some ''db-1'') st'
           = Inr st''
       \<and> orderStatusOf ''o-1'' st'' = Some COMPLETED
       \<and> digitalIds st'' \<noteq> []
       \<and> list_all (\<lambda>d. udi_status d \<noteq> MINTED) (digitalIds st''))"
proof -
  let ?x1 = "createDigitalIdsForOrder w1 a items st"
  let ?x2 = "createDigitalIdsForOrder w2 a items st"
  have cnt: "created (fst ?x1) = created (fst ?x2)" "failed (fst ?x1) = failed (fst ?x2)"
    using createDigitalIdsForOrder_counts[of w1 a items st w2] by simp_all
  have rows: "int (length (digitalIds (snd ?x1))) = int (length (digitalIds st)) + created (fst ?x1)"
    using createDigitalIdsForOrder_rows[of w1 a items st] by simp
  have o1: "orders (snd ?x1) = orders st" using createDigitalIdsForOrder_rows[of w1 a items st] by simp
  have o2: "orders (snd ?x2) = orders st" using createDigitalIdsForOrder_rows[of w2 a items st] by simp
  have s: "udiOrderStatus (fst ?x1) = udiOrderStatus (fst ?x2)" using cnt by (simp add: udiOrderStatus_def)
  have step: "map_sum id orders (createDigitalIdsStep (issueForJob w1 a items) user3fa orders3fa orderDbId st)
     = map_sum id orders (createDigitalIdsStep (issueForJob w2 a items) user3fa orders3fa orderDbId st)"
    using o1 o2 s
    by (cases ?x1; cases ?x2)
       (auto simp: createDigitalIdsStep_def issueForJob_def orders3fa_update_def split: option.splits)
  let ?w = "world_of env_configured chain_rejects_all"
  have "case createDigitalIdsStep (issueForJob ?w ex_args [li_three])
               (Some ''u-1'') (Some ''o-1'') (Some ''db-1'') ex_sys of
          Inl e \<Rightarrow> False
        | Inr st'' \<Rightarrow> orderStatusOf ''o-1'' st'' = Some COMPLETED \<and> digitalIds st'' \<noteq> []
                       \<and> list_all (\<lambda>d. udi_status d \<noteq> MINTED) (digitalIds st'')"
    by code_simp
  then obtain s'' where
    "createDigitalIdsStep (issueForJob ?w ex_args [li_three])
       (Some ''u-1'') (Some ''o-1'') (Some ''db-1'') ex_sys = Inr s''"
    "orderStatusOf ''o-1'' s'' = Some COMPLETED" "digitalIds s'' \<noteq> []"
    "list_all (\<lambda>d. udi_status d \<noteq> MINTED) (digitalIds s'')"
    by (cases "createDigitalIdsStep (issueForJob ?w ex_args [li_three])
                 (Some ''u-1'') (Some ''o-1'') (Some ''db-1'') ex_sys") auto
  then have ex: "\<exists>w' a' items' st' st''.
         createDigitalIdsStep (issueForJob w' a' items') (Some ''u-1'') (Some ''o-1'') (Some ''db-1'') st'
           = Inr st''
       \<and> orderStatusOf ''o-1'' st'' = Some COMPLETED
       \<and> digitalIds st'' \<noteq> []
       \<and> list_all (\<lambda>d. udi_status d \<noteq> MINTED) (digitalIds st'')"
    by blast
  show ?thesis using cnt rows step ex by (intro conjI)
qed

text \<open>
  The same order in three worlds: every mint succeeds, every mint fails, minting is not
  configured. Four records are counted as created each time.
\<close>

theorem C10_counts_independent_of_minting_witness:
  "created (fst (createDigitalIdsForOrder (world_of env_configured chain_accepts_all) ex_args
                   [li_three, li_one] ex_sys)) = 4
   \<and> created (fst (createDigitalIdsForOrder (world_of env_configured chain_rejects_all) ex_args
                   [li_three, li_one] ex_sys)) = 4
   \<and> created (fst (createDigitalIdsForOrder (world_of env_unconfigured chain_accepts_all) ex_args
                   [li_three, li_one] ex_sys)) = 4
   \<and> map udi_status (digitalIds (snd (createDigitalIdsForOrder
        (world_of env_configured chain_accepts_all) ex_args [li_three, li_one] ex_sys)))
       = [MINTED, MINTED, MINTED, MINTED]
   \<and> map udi_status (digitalIds (snd (createDigitalIdsForOrder
        (world_of env_configured chain_rejects_all) ex_args [li_three, li_one] ex_sys)))
       = [MINT_FAILED, MINT_FAILED, MINT_FAILED, MINT_FAILED]
   \<and> map udi_status (digitalIds (snd (createDigitalIdsForOrder
        (world_of env_unconfigured chain_accepts_all) ex_args [li_three, li_one] ex_sys)))
       = [MINT_PENDING, MINT_PENDING, MINT_PENDING, MINT_PENDING]"
proof -
  let ?ok = "world_of env_configured chain_accepts_all"
  let ?rej = "world_of env_configured chain_rejects_all"
  let ?un = "world_of env_unconfigured chain_accepts_all"
  have c: "created (fst (createDigitalIdsForOrder ?ok ex_args [li_three, li_one] ex_sys)) = 4"
    by code_simp
  have s1: "map udi_status (digitalIds (snd (createDigitalIdsForOrder ?ok ex_args [li_three, li_one] ex_sys)))
       = [MINTED, MINTED, MINTED, MINTED]" by code_simp
  have s2: "map udi_status (digitalIds (snd (createDigitalIdsForOrder ?rej ex_args [li_three, li_one] ex_sys)))
       = [MINT_FAILED, MINT_FAILED, MINT_FAILED, MINT_FAILED]" by code_simp
  have s3: "map udi_status (digitalIds (snd (createDigitalIdsForOrder ?un ex_args [li_three, li_one] ex_sys)))
       = [MINT_PENDING, MINT_PENDING, MINT_PENDING, MINT_PENDING]" by code_simp
  show ?thesis
    using c s1 s2 s3
      C10_counts_independent_of_minting [of ?ok ex_args "[li_three, li_one]" ex_sys ?rej]
      C10_counts_independent_of_minting [of ?ok ex_args "[li_three, li_one]" ex_sys ?un]
    by simp
qed

end
